theory Spec2Isabelle
  imports
    Complex_Main
    "HOL-Library.List_Lexorder"
    "HOL-Library.Char_ord"
    "HOL-Library.FSet"
begin

section \<open>Zones: data model\<close>

text \<open>
  The module under study is \<^verbatim>\<open>homeassistant/components/zone/__init__.py\<close>.
  Python floats are modelled as \<^typ>\<open>real\<close> (no rounding, no NaN); Python strings as
  \<^typ>\<open>string\<close>, ordered lexicographically by character code as Python's \<^verbatim>\<open>sorted\<close>
  orders them. An exception is a value \<open>Inl e\<close> of a sum type.
\<close>

datatype py_error = Invalid | TypeError | AttributeError | ItemNotFound

text \<open>What a Python function hands back to its caller when it returns normally.\<close>

datatype py_value = PyNone | PyBool bool

text \<open>
  Modelled from the spec: the constants imported from \<^verbatim>\<open>homeassistant.const\<close> and
  \<^verbatim>\<open>.const\<close> are not part of the module. The spec names the sentinel state "unavailable";
  the module's own \<^verbatim>\<open>ENTITY_ID_FORMAT = "zone.{}"\<close> and its lookup of \<^verbatim>\<open>"zone.home"\<close> give
  the domain and the reserved home identifier.
\<close>

definition STATE_UNAVAILABLE :: string where
  "STATE_UNAVAILABLE = ''unavailable''"

definition DOMAIN :: string where
  "DOMAIN = ''zone''"

definition HOME_ZONE :: string where
  "HOME_ZONE = ''home''"

definition ENTITY_ID_FORMAT :: "string \<Rightarrow> string" where
  "ENTITY_ID_FORMAT object_id = ''zone.'' @ object_id"

definition ENTITY_ID_HOME :: string where
  "ENTITY_ID_HOME = ENTITY_ID_FORMAT HOME_ZONE"

definition DEFAULT_PASSIVE :: bool where
  "DEFAULT_PASSIVE = False"

definition DEFAULT_RADIUS :: real where
  "DEFAULT_RADIUS = 100"

definition ICON_HOME :: string where
  "ICON_HOME = ''mdi:home''"

text \<open>
  The attribute dictionary of a published zone state. Its keys are those written by
  \<^verbatim>\<open>Zone._generate_attrs\<close>; the radius may be \<^verbatim>\<open>None\<close>, which \<^verbatim>\<open>in_zone\<close> tests for.
\<close>

record zone_attributes =
  ATTR_LATITUDE :: real
  ATTR_LONGITUDE :: real
  ATTR_RADIUS :: "real option"
  ATTR_PASSIVE :: bool
  ATTR_EDITABLE :: bool

text \<open>A \<^verbatim>\<open>homeassistant.core.State\<close>: the handle, the published state string, the attributes.\<close>

record State =
  entity_id :: string
  state :: string
  attributes :: zone_attributes

text \<open>
  The state machine \<^verbatim>\<open>hass.states\<close> is a dictionary from entity handle to \<^verbatim>\<open>State\<close>; it is
  kept as the list of its values in insertion order, each carrying its own handle. A Python
  dictionary has no two entries with one key: \<open>distinct (map entity_id states)\<close>.
\<close>

type_synonym StateMachine = "State list"

text \<open>
  The distance primitive \<^verbatim>\<open>homeassistant.util.location.distance\<close> is a black box that
  yields metres or \<^verbatim>\<open>None\<close>; every function that calls it takes it as a parameter.
\<close>

type_synonym distance_fn = "real \<Rightarrow> real \<Rightarrow> real \<Rightarrow> real \<Rightarrow> real option"

text \<open>
  Modelled from the spec: \<^verbatim>\<open>homeassistant.core.split_entity_id\<close> is not part of the module.
  The spec calls the second component "the portion of its handle after the domain prefix":
  the handle is cut at its first dot.
\<close>

definition split_entity_id :: "string \<Rightarrow> string \<times> string" where
  "split_entity_id eid =
     (takeWhile (\<lambda>c. c \<noteq> CHR ''.'') eid, drop 1 (dropWhile (\<lambda>c. c \<noteq> CHR ''.'') eid))"

text \<open>
  Modelled from the spec: \<^verbatim>\<open>StateMachine.async_entity_ids(domain)\<close> and \<^verbatim>\<open>StateMachine.get\<close>
  are not part of the module. The first lists the handles of one domain, the second looks a
  handle up and yields \<^verbatim>\<open>None\<close> when it is absent.
\<close>

definition async_entity_ids :: "StateMachine \<Rightarrow> string \<Rightarrow> string list" where
  "async_entity_ids states domain_filter =
     filter (\<lambda>eid. fst (split_entity_id eid) = domain_filter) (map entity_id states)"

definition states_get :: "StateMachine \<Rightarrow> string \<Rightarrow> State option" where
  "states_get states eid = find (\<lambda>s. entity_id s = eid) states"

section \<open>Containment engine\<close>

text \<open>
  \<^verbatim>\<open>closer_zone = closest is None or zone_dist < min_dist\<close>: comparing a float with
  \<^verbatim>\<open>None\<close> raises \<^verbatim>\<open>TypeError\<close>.
\<close>

definition closer_zone :: "real \<Rightarrow> real option \<Rightarrow> State option \<Rightarrow> py_error + bool" where
  "closer_zone zone_dist min_dist closest =
     (case closest of
        None \<Rightarrow> Inr True
      | Some c \<Rightarrow>
          (case min_dist of
             None \<Rightarrow> Inl TypeError
           | Some m \<Rightarrow> Inr (zone_dist < m)))"

text \<open>
  \<^verbatim>\<open>smaller_zone = zone_dist == min_dist and zone.attributes[ATTR_RADIUS] <
  closest.attributes[ATTR_RADIUS]\<close>: the right operand is evaluated only when the
  distances are equal.
\<close>

definition smaller_zone ::
  "real \<Rightarrow> real \<Rightarrow> real option \<Rightarrow> State option \<Rightarrow> py_error + bool" where
  "smaller_zone zone_dist zone_radius min_dist closest =
     (if min_dist = Some zone_dist then
        (case closest of
           None \<Rightarrow> Inl AttributeError
         | Some c \<Rightarrow>
             (case ATTR_RADIUS (attributes c) of
                None \<Rightarrow> Inl TypeError
              | Some closest_radius \<Rightarrow> Inr (zone_radius < closest_radius)))
      else Inr False)"

text \<open>
  The body of the \<^verbatim>\<open>for zone in zones\<close> loop of \<^verbatim>\<open>async_active_zone\<close>, on the loop
  variables \<open>(min_dist, closest)\<close>. The three flags are computed in the source's order
  before the final test, so the first failing one decides the exception.
\<close>

definition zone_step ::
  "distance_fn \<Rightarrow> real \<Rightarrow> real \<Rightarrow> real \<Rightarrow> State option \<Rightarrow>
   real option \<times> State option \<Rightarrow> py_error + (real option \<times> State option)" where
  "zone_step distance latitude longitude radius zone_opt acc =
     (case zone_opt of
        None \<Rightarrow> Inl AttributeError
      | Some zone \<Rightarrow>
          if state zone = STATE_UNAVAILABLE \<or> ATTR_PASSIVE (attributes zone) then Inr acc
          else
            (case distance latitude longitude
                    (ATTR_LATITUDE (attributes zone)) (ATTR_LONGITUDE (attributes zone)) of
               None \<Rightarrow> Inr acc
             | Some zone_dist \<Rightarrow>
                 (case ATTR_RADIUS (attributes zone) of
                    None \<Rightarrow> Inl TypeError
                  | Some zone_radius \<Rightarrow>
                      let within_zone = zone_dist - radius < zone_radius in
                      (case closer_zone zone_dist (fst acc) (snd acc) of
                         Inl e \<Rightarrow> Inl e
                       | Inr closer \<Rightarrow>
                           (case smaller_zone zone_dist zone_radius (fst acc) (snd acc) of
                              Inl e \<Rightarrow> Inl e
                            | Inr smaller \<Rightarrow>
                                if within_zone \<and> (closer \<or> smaller)
                                then Inr (Some zone_dist, Some zone)
                                else Inr acc)))))"

fun zone_loop ::
  "distance_fn \<Rightarrow> real \<Rightarrow> real \<Rightarrow> real \<Rightarrow> State option list \<Rightarrow>
   real option \<times> State option \<Rightarrow> py_error + State option" where
  "zone_loop distance latitude longitude radius [] acc = Inr (snd acc)"
| "zone_loop distance latitude longitude radius (zone # zones) acc =
     (case zone_step distance latitude longitude radius zone acc of
        Inl e \<Rightarrow> Inl e
      | Inr acc' \<Rightarrow> zone_loop distance latitude longitude radius zones acc')"

definition async_active_zone ::
  "distance_fn \<Rightarrow> StateMachine \<Rightarrow> real \<Rightarrow> real \<Rightarrow> real \<Rightarrow> py_error + State option" where
  "async_active_zone distance states latitude longitude radius =
     (let zones = map (states_get states) (sort (async_entity_ids states DOMAIN))
      in zone_loop distance latitude longitude radius zones (None, None))"

definition in_zone :: "distance_fn \<Rightarrow> State \<Rightarrow> real \<Rightarrow> real \<Rightarrow> real \<Rightarrow> bool" where
  "in_zone distance zone latitude longitude radius =
     (if state zone = STATE_UNAVAILABLE then False
      else
        (case distance latitude longitude
                (ATTR_LATITUDE (attributes zone)) (ATTR_LONGITUDE (attributes zone)) of
           None \<Rightarrow> False
         | Some zone_dist \<Rightarrow>
             (case ATTR_RADIUS (attributes zone) of
                None \<Rightarrow> False
              | Some zone_radius \<Rightarrow> zone_dist - radius < zone_radius)))"

text \<open>
  The operation \<open>resolveActiveZone\<close> as the specification words it, to be compared with
  \<^const>\<open>async_active_zone\<close>. The candidates are the zone entries that are not passive and
  not unavailable, taken in ascending order of their handles; a candidate without a
  distance is skipped; one running pair \<open>(min_dist, closest)\<close> is kept.
\<close>

definition zone_entries :: "StateMachine \<Rightarrow> State list" where
  "zone_entries states = filter (\<lambda>s. fst (split_entity_id (entity_id s)) = DOMAIN) states"

definition candidate :: "State \<Rightarrow> bool" where
  "candidate z \<longleftrightarrow> \<not> ATTR_PASSIVE (attributes z) \<and> state z \<noteq> STATE_UNAVAILABLE"

definition spec_candidates :: "StateMachine \<Rightarrow> State list" where
  "spec_candidates states = filter candidate (sort_key entity_id (zone_entries states))"

text \<open>"within": \<open>zone_dist - extraRadius < zone.radius\<close>; no radius, not within.\<close>

definition spec_within :: "real \<Rightarrow> real \<Rightarrow> State \<Rightarrow> bool" where
  "spec_within zone_dist extra z =
     (case ATTR_RADIUS (attributes z) of
        None \<Rightarrow> False
      | Some zone_radius \<Rightarrow> zone_dist - extra < zone_radius)"

text \<open>
  "Replace \<open>closest\<close> when the candidate is within AND (\<open>closest\<close> is unset, OR
  \<open>zone_dist < min_dist\<close>, OR (\<open>zone_dist == min_dist\<close> AND candidate radius \<open><\<close> current
  closest's radius))."
\<close>

definition spec_replaces :: "real \<Rightarrow> real \<Rightarrow> State \<Rightarrow> (real \<times> State) option \<Rightarrow> bool" where
  "spec_replaces zone_dist extra z best =
     (spec_within zone_dist extra z \<and>
      (case best of
         None \<Rightarrow> True
       | Some (min_dist, closest) \<Rightarrow>
           zone_dist < min_dist \<or>
           (zone_dist = min_dist \<and>
            (case (ATTR_RADIUS (attributes z), ATTR_RADIUS (attributes closest)) of
               (Some zone_radius, Some closest_radius) \<Rightarrow> zone_radius < closest_radius
             | _ \<Rightarrow> False))))"

fun spec_scan ::
  "distance_fn \<Rightarrow> real \<Rightarrow> real \<Rightarrow> real \<Rightarrow> State list \<Rightarrow>
   (real \<times> State) option \<Rightarrow> (real \<times> State) option" where
  "spec_scan distance lat lon extra [] best = best"
| "spec_scan distance lat lon extra (z # zs) best =
     (case distance lat lon (ATTR_LATITUDE (attributes z)) (ATTR_LONGITUDE (attributes z)) of
        None \<Rightarrow> spec_scan distance lat lon extra zs best
      | Some zone_dist \<Rightarrow>
          spec_scan distance lat lon extra zs
            (if spec_replaces zone_dist extra z best then Some (zone_dist, z) else best))"

definition resolveActiveZone ::
  "distance_fn \<Rightarrow> StateMachine \<Rightarrow> real \<Rightarrow> real \<Rightarrow> real \<Rightarrow> State option" where
  "resolveActiveZone distance states lat lon extra =
     map_option snd (spec_scan distance lat lon extra (spec_candidates states) None)"

text \<open>
  Vocabulary for the properties of the scan. A zone qualifies at distance \<open>d\<close> with radius
  \<open>zr\<close> when the primitive gives \<open>d\<close>, the zone has radius \<open>zr\<close> and the point is within.
  One qualifying zone beats another when it is strictly closer, or as close and strictly
  smaller. \<open>scan_step\<close> is one iteration of \<^const>\<open>spec_scan\<close>.
\<close>

definition qualifies ::
  "distance_fn \<Rightarrow> real \<Rightarrow> real \<Rightarrow> real \<Rightarrow> State \<Rightarrow> real \<Rightarrow> real \<Rightarrow> bool" where
  "qualifies distance lat lon extra z d zr \<longleftrightarrow>
     distance lat lon (ATTR_LATITUDE (attributes z)) (ATTR_LONGITUDE (attributes z)) = Some d \<and>
     ATTR_RADIUS (attributes z) = Some zr \<and> d - extra < zr"

text \<open>A zone the primitive gives a distance for, and that has no radius.\<close>

definition lacks_radius :: "distance_fn \<Rightarrow> real \<Rightarrow> real \<Rightarrow> State \<Rightarrow> bool" where
  "lacks_radius distance lat lon z \<longleftrightarrow>
     distance lat lon (ATTR_LATITUDE (attributes z)) (ATTR_LONGITUDE (attributes z)) \<noteq> None \<and>
     ATTR_RADIUS (attributes z) = None"

definition better :: "real \<Rightarrow> real \<Rightarrow> real \<Rightarrow> real \<Rightarrow> bool" where
  "better d zr d' zr' \<longleftrightarrow> d < d' \<or> (d = d' \<and> zr < zr')"

definition best_ok ::
  "distance_fn \<Rightarrow> real \<Rightarrow> real \<Rightarrow> real \<Rightarrow> (real \<times> State) option \<Rightarrow> bool" where
  "best_ok distance lat lon extra best \<longleftrightarrow>
     (case best of
        None \<Rightarrow> True
      | Some (m, c) \<Rightarrow> \<exists>rc. qualifies distance lat lon extra c m rc)"

definition scan_step ::
  "distance_fn \<Rightarrow> real \<Rightarrow> real \<Rightarrow> real \<Rightarrow> State \<Rightarrow>
   (real \<times> State) option \<Rightarrow> (real \<times> State) option" where
  "scan_step distance lat lon extra z best =
     (case distance lat lon (ATTR_LATITUDE (attributes z)) (ATTR_LONGITUDE (attributes z)) of
        None \<Rightarrow> best
      | Some zone_dist \<Rightarrow>
          if spec_replaces zone_dist extra z best then Some (zone_dist, z) else best)"

section \<open>The zone entity\<close>

text \<open>
  A zone definition, the dictionary \<^verbatim>\<open>Zone._config\<close>. Every definition that reaches an
  entity went through \<^verbatim>\<open>CREATE_FIELDS\<close>, \<^verbatim>\<open>_home_conf\<close> or \<^verbatim>\<open>async_setup_entry\<close>, so the
  keys read by \<^verbatim>\<open>_generate_attrs\<close> are present; icon and id are optional.
\<close>

record zone_config =
  CONF_NAME :: string
  CONF_LATITUDE :: real
  CONF_LONGITUDE :: real
  CONF_RADIUS :: real
  CONF_PASSIVE :: bool
  CONF_ICON :: "string option"
  CONF_ID :: "string option"

text \<open>
  The instance fields of \<^verbatim>\<open>class Zone\<close>. \<open>zone_entity_id\<close> is \<^verbatim>\<open>Entity.entity_id\<close>, unset
  until the handle is assigned. \<open>written\<close> records what each call of
  \<^verbatim>\<open>async_write_ha_state\<close> published: the state and the attributes of that moment.
\<close>

record Zone =
  config :: zone_config
  editable :: bool
  attrs :: "zone_attributes option"
  persons_in_zone :: "string fset"
  zone_entity_id :: "string option"
  written :: "(nat \<times> zone_attributes option) list"

definition generate_attrs :: "Zone \<Rightarrow> Zone" where
  "generate_attrs z =
     z\<lparr>attrs := Some \<lparr>ATTR_LATITUDE = CONF_LATITUDE (config z),
                      ATTR_LONGITUDE = CONF_LONGITUDE (config z),
                      ATTR_RADIUS = Some (CONF_RADIUS (config z)),
                      ATTR_PASSIVE = CONF_PASSIVE (config z),
                      ATTR_EDITABLE = editable z\<rparr>\<rparr>"

text \<open>\<^verbatim>\<open>Zone.__init__\<close>, statement by statement.\<close>

definition Zone_init :: "zone_config \<Rightarrow> Zone" where
  "Zone_init c =
     (generate_attrs
        \<lparr>config = c, editable = True, attrs = None, persons_in_zone = {||},
         zone_entity_id = None, written = []\<rparr>)
     \<lparr>persons_in_zone := {||}\<rparr>"

definition from_yaml :: "zone_config \<Rightarrow> Zone" where
  "from_yaml c = generate_attrs ((Zone_init c)\<lparr>editable := False\<rparr>)"

text \<open>The property \<^verbatim>\<open>Zone.state\<close>.\<close>

definition zone_state :: "Zone \<Rightarrow> nat" where
  "zone_state z = fcard (persons_in_zone z)"

definition extra_state_attributes :: "Zone \<Rightarrow> zone_attributes option" where
  "extra_state_attributes z = attrs z"

text \<open>
  Modelled from the spec: \<^verbatim>\<open>Entity.async_write_ha_state\<close> is not part of the module. It is
  the "republish" side effect: the entity's current state and attributes are published.
\<close>

definition async_write_ha_state :: "Zone \<Rightarrow> Zone" where
  "async_write_ha_state z = z\<lparr>written := written z @ [(zone_state z, extra_state_attributes z)]\<rparr>"

text \<open>\<^verbatim>\<open>Zone.async_update_config\<close>: both paths end without a return value.\<close>

definition async_update_config :: "Zone \<Rightarrow> zone_config \<Rightarrow> py_value \<times> Zone" where
  "async_update_config z c =
     (if config z = c then (PyNone, z)
      else (PyNone, async_write_ha_state (generate_attrs (z\<lparr>config := c\<rparr>))))"

text \<open>
  An occupant-location-change event: \<^verbatim>\<open>evt.data["entity_id"]\<close> and the state string of
  \<^verbatim>\<open>evt.data["new_state"]\<close>, which is \<^verbatim>\<open>None\<close> when the occupant was removed.
\<close>

record Event =
  data_entity_id :: string
  data_new_state :: "string option"

definition person_state_change_listener :: "Zone \<Rightarrow> Event \<Rightarrow> py_error + Zone" where
  "person_state_change_listener z evt =
     (case zone_entity_id z of
        None \<Rightarrow> Inl AttributeError
      | Some eid \<Rightarrow>
          let object_id = snd (split_entity_id eid);
              person_entity_id = data_entity_id evt;
              cur_count = fcard (persons_in_zone z);
              z' = (if data_new_state evt = Some object_id
                    then z\<lparr>persons_in_zone := finsert person_entity_id (persons_in_zone z)\<rparr>
                    else if person_entity_id |\<in>| persons_in_zone z
                    then z\<lparr>persons_in_zone := persons_in_zone z |-| {|person_entity_id|}\<rparr>
                    else z)
          in Inr (if fcard (persons_in_zone z') \<noteq> cur_count then async_write_ha_state z'
                  else z'))"

text \<open>
  \<^verbatim>\<open>Zone.async_added_to_hass\<close>: the scan over the occupant states, given as the pairs
  (handle, state string) of the \<^verbatim>\<open>person\<close> domain.
\<close>

fun scan_persons :: "string \<Rightarrow> (string \<times> string) list \<Rightarrow> string fset \<Rightarrow> string fset" where
  "scan_persons object_id [] ps = ps"
| "scan_persons object_id ((person, st) # rest) ps =
     scan_persons object_id rest (if st = object_id then finsert person ps else ps)"

definition async_added_to_hass :: "Zone \<Rightarrow> (string \<times> string) list \<Rightarrow> py_error + Zone" where
  "async_added_to_hass z persons =
     (case zone_entity_id z of
        None \<Rightarrow> Inl AttributeError
      | Some eid \<Rightarrow>
          Inr (z\<lparr>persons_in_zone :=
                   scan_persons (snd (split_entity_id eid)) persons (persons_in_zone z)\<rparr>))"

text \<open>
  The entities a zone's life can reach: built by \<^const>\<open>Zone_init\<close> or \<^const>\<open>from_yaml\<close>,
  given a handle by the platform, then driven by the operations above.
\<close>

inductive reachable :: "Zone \<Rightarrow> bool" where
  r_init: "reachable (Zone_init c)"
| r_yaml: "reachable (from_yaml c)"
| r_handle: "reachable z \<Longrightarrow> reachable (z\<lparr>zone_entity_id := Some eid\<rparr>)"
| r_update: "reachable z \<Longrightarrow> reachable (snd (async_update_config z c))"
| r_event: "reachable z \<Longrightarrow> person_state_change_listener z evt = Inr z' \<Longrightarrow> reachable z'"
| r_added: "reachable z \<Longrightarrow> async_added_to_hass z persons = Inr z' \<Longrightarrow> reachable z'"
| r_write: "reachable z \<Longrightarrow> reachable (async_write_ha_state z)"

section \<open>Validation of create and update requests\<close>

text \<open>
  The fields of a create or update request: a dictionary in which every key of
  \<^verbatim>\<open>CREATE_FIELDS\<close> may be present or absent. Values are typed, so a request can be
  malformed by a missing key or a value out of range, not by a value of the wrong type.
\<close>

record zone_fields =
  req_name :: "string option"
  req_latitude :: "real option"
  req_longitude :: "real option"
  req_radius :: "real option"
  req_passive :: "bool option"
  req_icon :: "string option"

text \<open>
  Modelled from the spec: the validators of \<^verbatim>\<open>homeassistant.helpers.config_validation\<close>
  are not part of the module. The spec's words: "name required string; latitude/longitude
  required, within valid geodetic ranges; radius optional float, default 100; passive
  optional bool, default false; icon optional string". On a value that already has the
  right type, only the two coordinate validators can refuse.
\<close>

definition cv_string :: "string \<Rightarrow> py_error + string" where
  "cv_string v = Inr v"

definition cv_latitude :: "real \<Rightarrow> py_error + real" where
  "cv_latitude v = (if - 90 \<le> v \<and> v \<le> 90 then Inr v else Inl Invalid)"

definition cv_longitude :: "real \<Rightarrow> py_error + real" where
  "cv_longitude v = (if - 180 \<le> v \<and> v \<le> 180 then Inr v else Inl Invalid)"

definition cv_boolean :: "bool \<Rightarrow> py_error + bool" where
  "cv_boolean v = Inr v"

definition cv_icon :: "string \<Rightarrow> py_error + string" where
  "cv_icon v = Inr v"

text \<open>\<^verbatim>\<open>vol.Coerce(float)\<close> applies \<^verbatim>\<open>float\<close>, which leaves a float as it is.\<close>

definition Coerce_float :: "real \<Rightarrow> py_error + real" where
  "Coerce_float v = Inr v"

text \<open>
  The three kinds of schema key: \<^verbatim>\<open>vol.Required(k)\<close>, \<^verbatim>\<open>vol.Optional(k, default=d)\<close>
  (an absent key takes the default, which is validated like a given value) and
  \<^verbatim>\<open>vol.Optional(k)\<close> (an absent key stays absent).
\<close>

definition Required :: "'a option \<Rightarrow> ('a \<Rightarrow> py_error + 'b) \<Rightarrow> py_error + 'b" where
  "Required v validator = (case v of None \<Rightarrow> Inl Invalid | Some x \<Rightarrow> validator x)"

definition Optional_default :: "'a option \<Rightarrow> 'a \<Rightarrow> ('a \<Rightarrow> py_error + 'b) \<Rightarrow> py_error + 'b" where
  "Optional_default v d validator = (case v of None \<Rightarrow> validator d | Some x \<Rightarrow> validator x)"

definition Optional :: "'a option \<Rightarrow> ('a \<Rightarrow> py_error + 'b) \<Rightarrow> py_error + 'b option" where
  "Optional v validator =
     (case v of
        None \<Rightarrow> Inr None
      | Some x \<Rightarrow> (case validator x of Inl e \<Rightarrow> Inl e | Inr y \<Rightarrow> Inr (Some y)))"

text \<open>Sequencing of validators: the first refusal is the result.\<close>

definition and_then :: "py_error + 'a \<Rightarrow> ('a \<Rightarrow> py_error + 'b) \<Rightarrow> py_error + 'b" where
  "and_then r f = (case r of Inl e \<Rightarrow> Inl e | Inr v \<Rightarrow> f v)"

text \<open>\<^verbatim>\<open>vol.Schema(CREATE_FIELDS)\<close>: any refused key refuses the request.\<close>

definition CREATE_SCHEMA :: "zone_fields \<Rightarrow> py_error + zone_config" where
  "CREATE_SCHEMA d =
     and_then (Required (req_name d) cv_string) (\<lambda>n.
     and_then (Required (req_latitude d) cv_latitude) (\<lambda>la.
     and_then (Required (req_longitude d) cv_longitude) (\<lambda>lo.
     and_then (Optional_default (req_radius d) DEFAULT_RADIUS Coerce_float) (\<lambda>r.
     and_then (Optional_default (req_passive d) DEFAULT_PASSIVE cv_boolean) (\<lambda>p.
     and_then (Optional (req_icon d) cv_icon) (\<lambda>i.
       Inr \<lparr>CONF_NAME = n, CONF_LATITUDE = la, CONF_LONGITUDE = lo, CONF_RADIUS = r,
            CONF_PASSIVE = p, CONF_ICON = i, CONF_ID = None\<rparr>))))))"

text \<open>\<^verbatim>\<open>vol.Schema(UPDATE_FIELDS)\<close>: every key is optional and has no default.\<close>

definition UPDATE_SCHEMA :: "zone_fields \<Rightarrow> py_error + zone_fields" where
  "UPDATE_SCHEMA d =
     and_then (Optional (req_name d) cv_string) (\<lambda>n.
     and_then (Optional (req_latitude d) cv_latitude) (\<lambda>la.
     and_then (Optional (req_longitude d) cv_longitude) (\<lambda>lo.
     and_then (Optional (req_radius d) Coerce_float) (\<lambda>r.
     and_then (Optional (req_passive d) cv_boolean) (\<lambda>p.
     and_then (Optional (req_icon d) cv_icon) (\<lambda>i.
       Inr \<lparr>req_name = n, req_latitude = la, req_longitude = lo, req_radius = r,
            req_passive = p, req_icon = i\<rparr>))))))"

text \<open>\<^verbatim>\<open>ZoneStorageCollection._process_create_data\<close>.\<close>

definition process_create_data :: "zone_fields \<Rightarrow> py_error + zone_config" where
  "process_create_data d = CREATE_SCHEMA d"

text \<open>\<^verbatim>\<open>ZoneStorageCollection._get_suggested_id\<close>.\<close>

definition get_suggested_id :: "zone_config \<Rightarrow> string" where
  "get_suggested_id info = CONF_NAME info"

text \<open>The dictionary merge \<^verbatim>\<open>{**data, **update_data}\<close>: a key of the update wins.\<close>

definition merge_fields :: "zone_config \<Rightarrow> zone_fields \<Rightarrow> zone_config" where
  "merge_fields item u =
     \<lparr>CONF_NAME = (case req_name u of None \<Rightarrow> CONF_NAME item | Some v \<Rightarrow> v),
      CONF_LATITUDE = (case req_latitude u of None \<Rightarrow> CONF_LATITUDE item | Some v \<Rightarrow> v),
      CONF_LONGITUDE = (case req_longitude u of None \<Rightarrow> CONF_LONGITUDE item | Some v \<Rightarrow> v),
      CONF_RADIUS = (case req_radius u of None \<Rightarrow> CONF_RADIUS item | Some v \<Rightarrow> v),
      CONF_PASSIVE = (case req_passive u of None \<Rightarrow> CONF_PASSIVE item | Some v \<Rightarrow> v),
      CONF_ICON = (case req_icon u of None \<Rightarrow> CONF_ICON item | Some v \<Rightarrow> Some v),
      CONF_ID = CONF_ID item\<rparr>"

text \<open>\<^verbatim>\<open>ZoneStorageCollection._update_data\<close>.\<close>

definition update_data :: "zone_config \<Rightarrow> zone_fields \<Rightarrow> py_error + zone_config" where
  "update_data item upd =
     (case UPDATE_SCHEMA upd of
        Inl e \<Rightarrow> Inl e
      | Inr u \<Rightarrow> Inr (merge_fields item u))"

text \<open>
  Modelled from the spec: \<^verbatim>\<open>StorageCollection.async_create_item\<close> and
  \<^verbatim>\<open>async_update_item\<close> (\<^verbatim>\<open>homeassistant.helpers.collection\<close>) are not part of the module.
  The store-origin records are a dictionary from stable identifier to definition. "create
  assigns a new stable identifier (generated from the name ...), persists it"; "update
  merges partial fields into the existing persisted record (error if handle unknown)".
  Both call the validating hooks above first. The identifier generator is a parameter.
\<close>

type_synonym storage_collection = "(string \<times> zone_config) list"

definition async_create_item ::
  "(string \<Rightarrow> string list \<Rightarrow> string) \<Rightarrow> storage_collection \<Rightarrow> zone_fields \<Rightarrow>
   (py_error + zone_config) \<times> storage_collection" where
  "async_create_item generate_id coll d =
     (case process_create_data d of
        Inl e \<Rightarrow> (Inl e, coll)
      | Inr item \<Rightarrow>
          let new_id = generate_id (get_suggested_id item) (map fst coll);
              item' = item\<lparr>CONF_ID := Some new_id\<rparr>
          in (Inr item', coll @ [(new_id, item')]))"

definition async_update_item ::
  "storage_collection \<Rightarrow> string \<Rightarrow> zone_fields \<Rightarrow>
   (py_error + zone_config) \<times> storage_collection" where
  "async_update_item coll item_id upd =
     (case map_of coll item_id of
        None \<Rightarrow> (Inl ItemNotFound, coll)
      | Some current \<Rightarrow>
          (case update_data current upd of
             Inl e \<Rightarrow> (Inl e, coll)
           | Inr updated \<Rightarrow>
               (Inr updated, map (\<lambda>(k, v). if k = item_id then (k, updated) else (k, v)) coll)))"

section \<open>Setup and reload\<close>

text \<open>
  What \<^verbatim>\<open>async_setup\<close> and its handlers read and write: the ambient location
  (\<^verbatim>\<open>hass.config\<close>), the component's live entities, the store-origin records, the event types
  this module listens to on \<^verbatim>\<open>hass.bus\<close>, the services it registered, and the shared table
  \<^verbatim>\<open>hass.data\<close>.
\<close>

record Hass =
  location_name :: string
  config_latitude :: real
  config_longitude :: real
  entities :: "Zone list"
  storage :: storage_collection
  bus_listeners :: "string list"
  services :: "(string \<times> string) list"
  hass_data :: "string \<rightharpoonup> storage_collection"

text \<open>
  Modelled from the spec: the names of the "ambient-configuration-changed notification"
  and of the "reload" command are constants of \<^verbatim>\<open>homeassistant.const\<close>; only their
  identity matters here.
\<close>

definition EVENT_CORE_CONFIG_UPDATE :: string where
  "EVENT_CORE_CONFIG_UPDATE = ''core_config_updated''"

definition SERVICE_RELOAD :: string where
  "SERVICE_RELOAD = ''reload''"

text \<open>
  The collaborators of \<^verbatim>\<open>homeassistant.helpers\<close> the setup calls, none of them part of the
  module: the two loaders, and \<^verbatim>\<open>EntityComponent.async_add_entities\<close>.
\<close>

record collaborators =
  yaml_async_load :: "zone_config list \<Rightarrow> Hass \<Rightarrow> Hass"
  storage_async_load :: "Hass \<Rightarrow> Hass"
  async_add_entities :: "Zone list \<Rightarrow> Hass \<Rightarrow> Hass"

text \<open>
  Modelled from the spec: \<^verbatim>\<open>EntityComponent.get_entity\<close> is not part of the module; it
  looks a live entity up by its handle.
\<close>

definition get_entity :: "Hass \<Rightarrow> string \<Rightarrow> Zone option" where
  "get_entity h eid = find (\<lambda>z. zone_entity_id z = Some eid) (entities h)"

definition home_conf :: "Hass \<Rightarrow> zone_config" where
  "home_conf h =
     \<lparr>CONF_NAME = location_name h, CONF_LATITUDE = config_latitude h,
      CONF_LONGITUDE = config_longitude h, CONF_RADIUS = DEFAULT_RADIUS,
      CONF_PASSIVE = False, CONF_ICON = Some ICON_HOME, CONF_ID = None\<rparr>"

text \<open>
  \<^verbatim>\<open>reload_service_handler\<close>. Its first argument is what
  \<^verbatim>\<open>component.async_prepare_reload(skip_reset=True)\<close> gave: the zone definitions of the
  fetched configuration, or \<^verbatim>\<open>None\<close> when the fetch failed. The handler ends without a
  return value on both paths.
\<close>

definition reload_service_handler ::
  "collaborators \<Rightarrow> zone_config list option \<Rightarrow> Hass \<Rightarrow> (py_error + py_value) \<times> Hass" where
  "reload_service_handler co conf h =
     (case conf of
        None \<Rightarrow> (Inr PyNone, h)
      | Some defs \<Rightarrow> (Inr PyNone, yaml_async_load co defs h))"

text \<open>
  \<^verbatim>\<open>async_setup\<close> up to the registration of the reload service: the two initial loads
  (\<^verbatim>\<open>if config[DOMAIN]\<close> is the test for a non-empty list), then the registrations.
\<close>

definition setup_collections :: "collaborators \<Rightarrow> Hass \<Rightarrow> zone_config list \<Rightarrow> Hass" where
  "setup_collections co h defs =
     (let h1 = (if defs \<noteq> [] then yaml_async_load co defs h else h);
          h2 = storage_async_load co h1
      in h2\<lparr>services := services h2 @ [(DOMAIN, SERVICE_RELOAD)]\<rparr>)"

definition async_setup :: "collaborators \<Rightarrow> Hass \<Rightarrow> zone_config list \<Rightarrow> bool \<times> Hass" where
  "async_setup co h defs =
     (let h3 = setup_collections co h defs in
      if get_entity h3 ''zone.home'' \<noteq> None then (True, h3)
      else
        let home_zone = (Zone_init (home_conf h3))\<lparr>zone_entity_id := Some ENTITY_ID_HOME\<rparr>;
            h4 = async_add_entities co [home_zone] h3;
            h5 = h4\<lparr>bus_listeners := bus_listeners h4 @ [EVENT_CORE_CONFIG_UPDATE]\<rparr>;
            h6 = h5\<lparr>hass_data := (hass_data h5)(DOMAIN \<mapsto> storage h5)\<rparr>
        in (True, h6))"

text \<open>
  The listener \<^verbatim>\<open>core_config_updated\<close> that \<^verbatim>\<open>async_setup\<close> defines for the home zone it
  made.
\<close>

definition core_config_updated :: "Hass \<Rightarrow> Zone \<Rightarrow> py_value \<times> Zone" where
  "core_config_updated h home_zone = async_update_config home_zone (home_conf h)"

text \<open>
  Modelled from the spec: the delivery of an "ambient-configuration-changed notification"
  by \<^verbatim>\<open>hass.bus\<close>, which is not part of the module. The listener runs if it was
  registered; the home zone it holds is the entity under the reserved handle.
\<close>

definition fire_core_config_update :: "Hass \<Rightarrow> Hass" where
  "fire_core_config_update h =
     (if EVENT_CORE_CONFIG_UPDATE \<in> set (bus_listeners h)
      then h\<lparr>entities :=
               map (\<lambda>z. if zone_entity_id z = Some ENTITY_ID_HOME
                        then snd (core_config_updated h z) else z)
                 (entities h)\<rparr>
      else h)"

text \<open>
  Modelled from the spec: simple collaborators for concrete runs. The source-origin load
  "replaces the entire source-origin partition" with entities of \<open>editable = false\<close>, each
  under the handle made from its name; the store-origin restore makes an editable entity
  of every persisted record; adding entities appends them to the live ones.
\<close>

definition source_entity :: "zone_config \<Rightarrow> Zone" where
  "source_entity c = (from_yaml c)\<lparr>zone_entity_id := Some (ENTITY_ID_FORMAT (CONF_NAME c))\<rparr>"

definition store_entity :: "zone_config \<Rightarrow> Zone" where
  "store_entity c = (Zone_init c)\<lparr>zone_entity_id := Some (ENTITY_ID_FORMAT (CONF_NAME c))\<rparr>"

definition spec_yaml_load :: "zone_config list \<Rightarrow> Hass \<Rightarrow> Hass" where
  "spec_yaml_load defs h = h\<lparr>entities := filter editable (entities h) @ map source_entity defs\<rparr>"

definition spec_storage_load :: "Hass \<Rightarrow> Hass" where
  "spec_storage_load h = h\<lparr>entities := entities h @ map (store_entity \<circ> snd) (storage h)\<rparr>"

definition spec_add_entities :: "Zone list \<Rightarrow> Hass \<Rightarrow> Hass" where
  "spec_add_entities zs h = h\<lparr>entities := entities h @ zs\<rparr>"

definition spec_collaborators :: collaborators where
  "spec_collaborators =
     \<lparr>yaml_async_load = spec_yaml_load, storage_async_load = spec_storage_load,
      async_add_entities = spec_add_entities\<rparr>"

section \<open>Concrete runs\<close>

text \<open>
  A stand-in for the distance primitive on concrete inputs: the sum of the coordinate
  differences, undefined for a latitude outside \<open>[-90, 90]\<close>.
\<close>

definition planar_distance :: distance_fn where
  "planar_distance lat1 lon1 lat2 lon2 =
     (if \<bar>lat1\<bar> > 90 \<or> \<bar>lat2\<bar> > 90 then None
      else Some (\<bar>lat1 - lat2\<bar> + \<bar>lon1 - lon2\<bar>))"

definition mk_state :: "string \<Rightarrow> string \<Rightarrow> real \<Rightarrow> real \<Rightarrow> real option \<Rightarrow> bool \<Rightarrow> State" where
  "mk_state eid st la lo r p =
     \<lparr>entity_id = eid, state = st,
      attributes = \<lparr>ATTR_LATITUDE = la, ATTR_LONGITUDE = lo, ATTR_RADIUS = r,
                    ATTR_PASSIVE = p, ATTR_EDITABLE = True\<rparr>\<rparr>"

definition mk_config :: "string \<Rightarrow> real \<Rightarrow> real \<Rightarrow> real \<Rightarrow> zone_config" where
  "mk_config n la lo r =
     \<lparr>CONF_NAME = n, CONF_LATITUDE = la, CONF_LONGITUDE = lo, CONF_RADIUS = r,
      CONF_PASSIVE = False, CONF_ICON = None, CONF_ID = None\<rparr>"

definition mk_fields ::
  "string option \<Rightarrow> real option \<Rightarrow> real option \<Rightarrow> real option \<Rightarrow> zone_fields" where
  "mk_fields n la lo r =
     \<lparr>req_name = n, req_latitude = la, req_longitude = lo, req_radius = r,
      req_passive = None, req_icon = None\<rparr>"

definition first_free_id :: "string \<Rightarrow> string list \<Rightarrow> string" where
  "first_free_id suggestion taken =
     (if suggestion \<in> set taken then suggestion @ ''_2'' else suggestion)"

definition hass0 :: Hass where
  "hass0 = \<lparr>location_name = ''Home'', config_latitude = 40, config_longitude = - 75,
            entities = [], storage = [], bus_listeners = [], services = [],
            hass_data = Map.empty\<rparr>"

definition office_zone :: Zone where
  "office_zone = (Zone_init (mk_config ''Office'' 40 (- 75) 50))\<lparr>zone_entity_id := Some ''zone.office''\<rparr>"

definition alice_arrives :: Event where
  "alice_arrives = \<lparr>data_entity_id = ''person.alice'', data_new_state = Some ''office''\<rparr>"

text \<open>
  Three namespaces around the point \<open>(0, 50)\<close>, all zones centred at the origin: a large
  \<^verbatim>\<open>zone.a\<close> with a small \<^verbatim>\<open>zone.b\<close>; two zones of one radius, inserted in descending handle
  order; and a mixed one with a passive zone, an unavailable zone, a zone at an invalid
  latitude and an entry of another domain.
\<close>

definition nested_states :: StateMachine where
  "nested_states =
     [mk_state ''zone.a'' ''0'' 0 0 (Some 200) False,
      mk_state ''zone.b'' ''0'' 0 0 (Some 100) False]"

definition twin_states :: StateMachine where
  "twin_states =
     [mk_state ''zone.b'' ''0'' 0 0 (Some 100) False,
      mk_state ''zone.a'' ''0'' 0 0 (Some 100) False]"

definition mixed_states :: StateMachine where
  "mixed_states =
     [mk_state ''zone.d'' ''0'' 0 20 (Some 100) False,
      mk_state ''person.a'' ''d'' 0 50 (Some 100) False,
      mk_state ''zone.c'' ''0'' 0 50 (Some 100) True,
      mk_state ''zone.b'' ''unavailable'' 0 50 (Some 100) False,
      mk_state ''zone.a'' ''0'' 95 50 (Some 100) False,
      mk_state ''zone.e'' ''0'' 0 80 (Some 10) False]"

text \<open>A namespace with one zone that has no radius, around the same point.\<close>

definition no_radius_states :: StateMachine where
  "no_radius_states = [mk_state ''zone.a'' ''0'' 0 0 None False]"

text \<open>Coordinates a request may carry that the coordinate validators refuse.\<close>

definition bad_latitude :: "real option \<Rightarrow> bool" where
  "bad_latitude v = (case v of None \<Rightarrow> False | Some x \<Rightarrow> x < - 90 \<or> 90 < x)"

definition bad_longitude :: "real option \<Rightarrow> bool" where
  "bad_longitude v = (case v of None \<Rightarrow> False | Some x \<Rightarrow> x < - 180 \<or> 180 < x)"

text \<open>
  The create requests and the update requests that validation refuses: a create request
  without a name, a latitude or a longitude, and any request with a coordinate out of
  range.
\<close>

definition create_malformed :: "zone_fields \<Rightarrow> bool" where
  "create_malformed d \<longleftrightarrow>
     req_name d = None \<or> req_latitude d = None \<or> req_longitude d = None \<or>
     bad_latitude (req_latitude d) \<or> bad_longitude (req_longitude d)"

definition update_malformed :: "zone_fields \<Rightarrow> bool" where
  "update_malformed d \<longleftrightarrow> bad_latitude (req_latitude d) \<or> bad_longitude (req_longitude d)"

section \<open>Containment of a point in one zone\<close>

text \<open>
  Claim C2. \<^const>\<open>in_zone\<close> is false for a zone whose published state is the unavailable
  sentinel; it is false when the distance primitive gives no distance or the zone has no
  radius; otherwise it is the strict inequality \<open>d - extraRadius < radius\<close>, so that a
  point at distance exactly \<open>radius + extraRadius\<close> is not inside.
\<close>

theorem in_zone_rule:
  "(state zone = STATE_UNAVAILABLE \<longrightarrow> \<not> in_zone distance zone lat lon r) \<and>
   (distance lat lon (ATTR_LATITUDE (attributes zone)) (ATTR_LONGITUDE (attributes zone)) = None
      \<or> ATTR_RADIUS (attributes zone) = None \<longrightarrow> \<not> in_zone distance zone lat lon r) \<and>
   (state zone \<noteq> STATE_UNAVAILABLE \<and>
    distance lat lon (ATTR_LATITUDE (attributes zone)) (ATTR_LONGITUDE (attributes zone)) = Some d \<and>
    ATTR_RADIUS (attributes zone) = Some zr
      \<longrightarrow> in_zone distance zone lat lon r = (d - r < zr)) \<and>
   (distance lat lon (ATTR_LATITUDE (attributes zone)) (ATTR_LONGITUDE (attributes zone))
      = Some (zr + r) \<and>
    ATTR_RADIUS (attributes zone) = Some zr
      \<longrightarrow> \<not> in_zone distance zone lat lon r)"
  by (auto simp: in_zone_def split: option.splits)

theorem in_zone_rule_witness:
  "\<not> in_zone planar_distance (mk_state ''zone.a'' ''unavailable'' 0 0 (Some 100) False) 0 50 0 \<and>
   \<not> in_zone planar_distance (mk_state ''zone.a'' ''0'' 0 0 (Some 100) False) 91 50 0 \<and>
   \<not> in_zone planar_distance (mk_state ''zone.a'' ''0'' 0 0 None False) 0 50 0 \<and>
   in_zone planar_distance (mk_state ''zone.a'' ''0'' 0 0 (Some 100) False) 0 109 10 \<and>
   \<not> in_zone planar_distance (mk_state ''zone.a'' ''0'' 0 0 (Some 100) False) 0 110 10"
  using
    in_zone_rule [of "mk_state ''zone.a'' ''unavailable'' 0 0 (Some 100) False"
      planar_distance 0 50 0]
    in_zone_rule [of "mk_state ''zone.a'' ''0'' 0 0 (Some 100) False" planar_distance 91 50 0]
    in_zone_rule [of "mk_state ''zone.a'' ''0'' 0 0 None False" planar_distance 0 50 0]
    in_zone_rule [of "mk_state ''zone.a'' ''0'' 0 0 (Some 100) False" planar_distance 0 109 10
      109 100]
    in_zone_rule [of "mk_state ''zone.a'' ''0'' 0 0 (Some 100) False" planar_distance 0 110 10
      110 100]
  by (simp add: mk_state_def planar_distance_def STATE_UNAVAILABLE_def)

section \<open>The zone entity: update, membership, derived state\<close>

lemma generate_attrs_persons: "persons_in_zone (generate_attrs z) = persons_in_zone z"
  by (simp add: generate_attrs_def)

text \<open>
  Claim C5, as the code has it. \<^const>\<open>async_update_config\<close> leaves the entity as it is when
  the new definition equals the current one; otherwise it replaces the definition,
  regenerates the attributes from it and publishes once. On both paths it returns
  \<^verbatim>\<open>None\<close>: no flag tells the caller whether anything changed. Regenerating the
  attributes, and the update as a whole, leave the occupant set alone.
\<close>

theorem update_config_effect:
  "fst (async_update_config z c) = PyNone \<and>
   snd (async_update_config z c) =
     (if config z = c then z
      else z\<lparr>config := c,
             attrs := Some \<lparr>ATTR_LATITUDE = CONF_LATITUDE c, ATTR_LONGITUDE = CONF_LONGITUDE c,
                             ATTR_RADIUS = Some (CONF_RADIUS c), ATTR_PASSIVE = CONF_PASSIVE c,
                             ATTR_EDITABLE = editable z\<rparr>,
             written := written z @
               [(fcard (persons_in_zone z),
                 Some \<lparr>ATTR_LATITUDE = CONF_LATITUDE c, ATTR_LONGITUDE = CONF_LONGITUDE c,
                       ATTR_RADIUS = Some (CONF_RADIUS c), ATTR_PASSIVE = CONF_PASSIVE c,
                       ATTR_EDITABLE = editable z\<rparr>)]\<rparr>) \<and>
   persons_in_zone (snd (async_update_config z c)) = persons_in_zone z \<and>
   persons_in_zone (generate_attrs z) = persons_in_zone z"
  by (simp add: async_update_config_def generate_attrs_def async_write_ha_state_def
      zone_state_def extra_state_attributes_def)

text \<open>
  The claim's return values fail: a changed definition does not return true (though it
  publishes), and an identical one does not return false.
\<close>

theorem update_config_returns_no_flag:
  "fst (async_update_config (Zone_init (mk_config ''Office'' 40 (- 75) 50))
          (mk_config ''Office'' 40 (- 75) 60)) \<noteq> PyBool True \<and>
   fst (async_update_config (Zone_init (mk_config ''Office'' 40 (- 75) 50))
          (mk_config ''Office'' 40 (- 75) 50)) \<noteq> PyBool False \<and>
   written (snd (async_update_config (Zone_init (mk_config ''Office'' 40 (- 75) 50))
          (mk_config ''Office'' 40 (- 75) 60))) \<noteq> []"
  by (simp add: async_update_config_def Zone_init_def generate_attrs_def mk_config_def
      async_write_ha_state_def)

text \<open>
  Claim C6. On an occupant event delivered to a zone that has its handle, the occupant is
  added exactly when the event's new state is the zone's bare identifier; otherwise it is
  removed (which changes nothing if it was absent); the zone publishes, with the new count
  as state, exactly when the size of the occupant set changed; nothing else changes.
\<close>

theorem listener_effect:
  assumes "zone_entity_id z = Some eid"
  shows "\<exists>z'. person_state_change_listener z evt = Inr z' \<and>
     persons_in_zone z' =
       (if data_new_state evt = Some (snd (split_entity_id eid))
        then finsert (data_entity_id evt) (persons_in_zone z)
        else persons_in_zone z |-| {|data_entity_id evt|}) \<and>
     written z' =
       (if fcard (persons_in_zone z') \<noteq> fcard (persons_in_zone z)
        then written z @ [(fcard (persons_in_zone z'), attrs z)]
        else written z) \<and>
     config z' = config z \<and> attrs z' = attrs z \<and> editable z' = editable z \<and>
     zone_entity_id z' = zone_entity_id z"
  using assms
  by (auto simp: person_state_change_listener_def Let_def async_write_ha_state_def
      zone_state_def extra_state_attributes_def)

theorem listener_effect_witness:
  "zone_entity_id office_zone = Some ''zone.office'' \<and>
   (\<exists>z'. person_state_change_listener office_zone alice_arrives = Inr z' \<and>
      persons_in_zone z' = {|''person.alice''|} \<and>
      written z' = [(1, attrs office_zone)])"
proof -
  have h: "zone_entity_id office_zone = Some ''zone.office''"
    by (simp add: office_zone_def)
  have p: "persons_in_zone office_zone = {||}" and w: "written office_zone = []"
    by (simp_all add: office_zone_def Zone_init_def generate_attrs_def)
  from listener_effect [OF h, of alice_arrives] obtain z' where
    "person_state_change_listener office_zone alice_arrives = Inr z'"
    "persons_in_zone z' =
       (if data_new_state alice_arrives = Some (snd (split_entity_id ''zone.office''))
        then finsert (data_entity_id alice_arrives) (persons_in_zone office_zone)
        else persons_in_zone office_zone |-| {|data_entity_id alice_arrives|})"
    "written z' =
       (if fcard (persons_in_zone z') \<noteq> fcard (persons_in_zone office_zone)
        then written office_zone @ [(fcard (persons_in_zone z'), attrs office_zone)]
        else written office_zone)"
    by blast
  then have "person_state_change_listener office_zone alice_arrives = Inr z' \<and>
      persons_in_zone z' = {|''person.alice''|} \<and>
      written z' = [(1, attrs office_zone)]"
    by (simp add: p w alice_arrives_def split_entity_id_def fcard_finsert_if fcard_fempty)
  with h show ?thesis by blast
qed

lemma reachable_attrs: "reachable z \<Longrightarrow> attrs z = attrs (generate_attrs z)"
proof (induction rule: reachable.induct)
  case (r_init c)
  then show ?case by (simp add: Zone_init_def generate_attrs_def)
next
  case (r_yaml c)
  then show ?case by (simp add: from_yaml_def Zone_init_def generate_attrs_def)
next
  case (r_handle z eid)
  then show ?case by (simp add: generate_attrs_def)
next
  case (r_update z c)
  then show ?case
    by (simp add: async_update_config_def generate_attrs_def async_write_ha_state_def)
next
  case (r_event z evt z')
  then show ?case
    by (auto simp: person_state_change_listener_def Let_def generate_attrs_def
        async_write_ha_state_def split: option.splits if_splits)
next
  case (r_added z persons z')
  then show ?case
    by (auto simp: async_added_to_hass_def generate_attrs_def split: option.splits)
next
  case (r_write z)
  then show ?case by (simp add: generate_attrs_def async_write_ha_state_def)
qed

text \<open>
  Claim C8. For every entity that construction and the entity's operations can reach,
  the observable state is the size of the occupant set, and the attributes are the five
  values computed from the current definition and the editable flag: regenerating them
  would change nothing.
\<close>

theorem derived_state_invariants:
  assumes "reachable z"
  shows "zone_state z = fcard (persons_in_zone z) \<and>
         extra_state_attributes z =
           Some \<lparr>ATTR_LATITUDE = CONF_LATITUDE (config z),
                 ATTR_LONGITUDE = CONF_LONGITUDE (config z),
                 ATTR_RADIUS = Some (CONF_RADIUS (config z)),
                 ATTR_PASSIVE = CONF_PASSIVE (config z),
                 ATTR_EDITABLE = editable z\<rparr> \<and>
         generate_attrs z = z"
  using reachable_attrs [OF assms]
  by (simp add: zone_state_def extra_state_attributes_def generate_attrs_def)

theorem derived_state_invariants_witness:
  "reachable (snd (async_update_config (from_yaml (mk_config ''Office'' 40 (- 75) 50))
                     (mk_config ''Office'' 41 (- 75) 60))) \<and>
   zone_state (snd (async_update_config (from_yaml (mk_config ''Office'' 40 (- 75) 50))
                     (mk_config ''Office'' 41 (- 75) 60))) = 0 \<and>
   extra_state_attributes (snd (async_update_config (from_yaml (mk_config ''Office'' 40 (- 75) 50))
                     (mk_config ''Office'' 41 (- 75) 60))) =
     Some \<lparr>ATTR_LATITUDE = 41, ATTR_LONGITUDE = - 75, ATTR_RADIUS = Some 60,
           ATTR_PASSIVE = False, ATTR_EDITABLE = False\<rparr>"
proof -
  have r: "reachable (snd (async_update_config (from_yaml (mk_config ''Office'' 40 (- 75) 50))
                     (mk_config ''Office'' 41 (- 75) 60)))"
    by (rule r_update) (rule r_yaml)
  show ?thesis
    using derived_state_invariants [OF r] r
    by (simp add: async_update_config_def from_yaml_def Zone_init_def generate_attrs_def
        mk_config_def async_write_ha_state_def)
qed

section \<open>Validation before mutation\<close>

lemma create_invalid:
  "req_name d = None \<or> req_latitude d = None \<or> req_longitude d = None \<or>
   bad_latitude (req_latitude d) \<or> bad_longitude (req_longitude d)
   \<Longrightarrow> process_create_data d = Inl Invalid"
  by (auto simp: process_create_data_def CREATE_SCHEMA_def and_then_def Required_def
      Optional_default_def Optional_def cv_string_def cv_latitude_def cv_longitude_def
      Coerce_float_def cv_boolean_def cv_icon_def bad_latitude_def bad_longitude_def
      split: option.splits sum.splits)

lemma update_invalid:
  "bad_latitude (req_latitude d) \<or> bad_longitude (req_longitude d)
   \<Longrightarrow> update_data item d = Inl Invalid"
  by (auto simp: update_data_def UPDATE_SCHEMA_def and_then_def
      Optional_def cv_string_def cv_latitude_def cv_longitude_def
      Coerce_float_def cv_boolean_def cv_icon_def bad_latitude_def bad_longitude_def
      split: option.splits sum.splits)

lemma create_accepts:
  assumes "\<not> create_malformed d"
  shows "\<exists>n la lo. req_name d = Some n \<and> req_latitude d = Some la \<and> req_longitude d = Some lo \<and>
     process_create_data d =
       Inr \<lparr>CONF_NAME = n, CONF_LATITUDE = la, CONF_LONGITUDE = lo,
            CONF_RADIUS = (case req_radius d of None \<Rightarrow> DEFAULT_RADIUS | Some v \<Rightarrow> v),
            CONF_PASSIVE = (case req_passive d of None \<Rightarrow> DEFAULT_PASSIVE | Some v \<Rightarrow> v),
            CONF_ICON = req_icon d, CONF_ID = None\<rparr>"
  using assms
  by (auto simp: create_malformed_def process_create_data_def CREATE_SCHEMA_def and_then_def
      Required_def Optional_default_def Optional_def cv_string_def cv_latitude_def
      cv_longitude_def Coerce_float_def cv_boolean_def cv_icon_def bad_latitude_def
      bad_longitude_def split: option.splits)

lemma update_schema_accepts:
  assumes "\<not> update_malformed d"
  shows "UPDATE_SCHEMA d = Inr d"
  using assms
  by (auto simp: update_malformed_def UPDATE_SCHEMA_def and_then_def
      Optional_def cv_string_def cv_latitude_def
      cv_longitude_def Coerce_float_def cv_boolean_def cv_icon_def bad_latitude_def
      bad_longitude_def split: option.splits)

lemma update_accepts:
  "\<not> update_malformed d \<Longrightarrow> update_data item d = Inr (merge_fields item d)"
  by (simp add: update_data_def update_schema_accepts)


lemma create_isl: "isl (process_create_data d) = create_malformed d"
proof (cases "create_malformed d")
  case True
  then show ?thesis by (simp add: create_invalid create_malformed_def)
next
  case False
  with create_accepts [OF False] show ?thesis by auto
qed

lemma update_isl: "isl (update_data item d) = update_malformed d"
proof (cases "update_malformed d")
  case True
  then show ?thesis by (simp add: update_invalid update_malformed_def)
next
  case False
  then show ?thesis by (simp add: update_accepts)
qed

text \<open>
  Claim C7, as the code has it. A create request without a name, without a latitude or a
  longitude, or with a coordinate outside its geodetic range is refused with
  \<^verbatim>\<open>vol.Invalid\<close> and the collection is left as it was; so is an update of a known record
  that carries a coordinate outside its range. Whenever create or update fails, for
  whatever reason, the collection is unchanged. These are the only refusals: every other
  create request is stored with the radius it carries, whatever its sign (the default
  when it carries none), and every other update is merged into the record, with or
  without a name.
\<close>

theorem validation_rejects:
  "(req_name d = None \<or> req_latitude d = None \<or> req_longitude d = None \<or>
    bad_latitude (req_latitude d) \<or> bad_longitude (req_longitude d)
      \<longrightarrow> async_create_item generate_id coll d = (Inl Invalid, coll)) \<and>
   (map_of coll item_id \<noteq> None \<and>
    (bad_latitude (req_latitude d) \<or> bad_longitude (req_longitude d))
      \<longrightarrow> async_update_item coll item_id d = (Inl Invalid, coll)) \<and>
   (isl (fst (async_create_item generate_id coll d))
      \<longrightarrow> snd (async_create_item generate_id coll d) = coll) \<and>
   (isl (fst (async_update_item coll item_id d))
      \<longrightarrow> snd (async_update_item coll item_id d) = coll) \<and>
   isl (process_create_data d) = create_malformed d \<and>
   isl (update_data current d) = update_malformed d \<and>
   (\<not> create_malformed d \<longrightarrow>
      (\<exists>n la lo. req_name d = Some n \<and> req_latitude d = Some la \<and> req_longitude d = Some lo \<and>
         async_create_item generate_id coll d =
           (Inr \<lparr>CONF_NAME = n, CONF_LATITUDE = la, CONF_LONGITUDE = lo,
                 CONF_RADIUS = (case req_radius d of None \<Rightarrow> DEFAULT_RADIUS | Some v \<Rightarrow> v),
                 CONF_PASSIVE = (case req_passive d of None \<Rightarrow> DEFAULT_PASSIVE | Some v \<Rightarrow> v),
                 CONF_ICON = req_icon d,
                 CONF_ID = Some (generate_id n (map fst coll))\<rparr>,
            coll @
            [(generate_id n (map fst coll),
              \<lparr>CONF_NAME = n, CONF_LATITUDE = la, CONF_LONGITUDE = lo,
                CONF_RADIUS = (case req_radius d of None \<Rightarrow> DEFAULT_RADIUS | Some v \<Rightarrow> v),
                CONF_PASSIVE = (case req_passive d of None \<Rightarrow> DEFAULT_PASSIVE | Some v \<Rightarrow> v),
                CONF_ICON = req_icon d,
                CONF_ID = Some (generate_id n (map fst coll))\<rparr>)]))) \<and>
   (\<not> update_malformed d \<longrightarrow> update_data current d = Inr (merge_fields current d)) \<and>
   (\<not> update_malformed d \<and> map_of coll item_id = Some current \<longrightarrow>
      async_update_item coll item_id d =
        (Inr (merge_fields current d),
         map (\<lambda>(k, v). if k = item_id then (k, merge_fields current d) else (k, v)) coll))"
proof (intro conjI impI)
  assume "req_name d = None \<or> req_latitude d = None \<or> req_longitude d = None \<or>
    bad_latitude (req_latitude d) \<or> bad_longitude (req_longitude d)"
  then show "async_create_item generate_id coll d = (Inl Invalid, coll)"
    by (simp add: async_create_item_def create_invalid)
next
  assume "map_of coll item_id \<noteq> None \<and>
    (bad_latitude (req_latitude d) \<or> bad_longitude (req_longitude d))"
  then show "async_update_item coll item_id d = (Inl Invalid, coll)"
    by (auto simp: async_update_item_def update_invalid)
next
  assume "isl (fst (async_create_item generate_id coll d))"
  then show "snd (async_create_item generate_id coll d) = coll"
    by (auto simp: async_create_item_def Let_def split: sum.splits)
next
  assume "isl (fst (async_update_item coll item_id d))"
  then show "snd (async_update_item coll item_id d) = coll"
    by (auto simp: async_update_item_def split: sum.splits option.splits)
next
  show "isl (process_create_data d) = create_malformed d" by (rule create_isl)
next
  show "isl (update_data current d) = update_malformed d" by (rule update_isl)
next
  assume "\<not> create_malformed d"
  from create_accepts [OF this]
  show "\<exists>n la lo. req_name d = Some n \<and> req_latitude d = Some la \<and> req_longitude d = Some lo \<and>
         async_create_item generate_id coll d =
           (Inr \<lparr>CONF_NAME = n, CONF_LATITUDE = la, CONF_LONGITUDE = lo,
                 CONF_RADIUS = (case req_radius d of None \<Rightarrow> DEFAULT_RADIUS | Some v \<Rightarrow> v),
                 CONF_PASSIVE = (case req_passive d of None \<Rightarrow> DEFAULT_PASSIVE | Some v \<Rightarrow> v),
                 CONF_ICON = req_icon d,
                 CONF_ID = Some (generate_id n (map fst coll))\<rparr>,
            coll @
            [(generate_id n (map fst coll),
              \<lparr>CONF_NAME = n, CONF_LATITUDE = la, CONF_LONGITUDE = lo,
                CONF_RADIUS = (case req_radius d of None \<Rightarrow> DEFAULT_RADIUS | Some v \<Rightarrow> v),
                CONF_PASSIVE = (case req_passive d of None \<Rightarrow> DEFAULT_PASSIVE | Some v \<Rightarrow> v),
                CONF_ICON = req_icon d,
                CONF_ID = Some (generate_id n (map fst coll))\<rparr>)])"
    by (auto simp: async_create_item_def get_suggested_id_def Let_def)
next
  assume "\<not> update_malformed d"
  then show "update_data current d = Inr (merge_fields current d)" by (rule update_accepts)
next
  assume "\<not> update_malformed d \<and> map_of coll item_id = Some current"
  then show "async_update_item coll item_id d =
        (Inr (merge_fields current d),
         map (\<lambda>(k, v). if k = item_id then (k, merge_fields current d) else (k, v)) coll)"
    by (simp add: async_update_item_def update_accepts)
qed

theorem validation_rejects_witness:
  "async_create_item first_free_id [] (mk_fields None (Some 40) (Some (- 75)) None)
     = (Inl Invalid, []) \<and>
   async_create_item first_free_id [] (mk_fields (Some ''Office'') (Some 91) (Some (- 75)) None)
     = (Inl Invalid, []) \<and>
   async_update_item [(''office'', mk_config ''Office'' 40 (- 75) 50)] ''office''
      (mk_fields None None (Some 181) None)
     = (Inl Invalid, [(''office'', mk_config ''Office'' 40 (- 75) 50)]) \<and>
   snd (async_update_item [(''office'', mk_config ''Office'' 40 (- 75) 50)] ''garage''
      (mk_fields None None None (Some 5)))
     = [(''office'', mk_config ''Office'' 40 (- 75) 50)] \<and>
   async_create_item first_free_id []
      (mk_fields (Some ''Office'') (Some 40) (Some (- 75)) (Some (- 5)))
     = (Inr ((mk_config ''Office'' 40 (- 75) (- 5))\<lparr>CONF_ID := Some ''Office''\<rparr>),
        [(''Office'', (mk_config ''Office'' 40 (- 75) (- 5))\<lparr>CONF_ID := Some ''Office''\<rparr>)]) \<and>
   async_update_item [(''office'', mk_config ''Office'' 40 (- 75) 50)] ''office''
      (mk_fields None None None (Some 0))
     = (Inr (mk_config ''Office'' 40 (- 75) 0), [(''office'', mk_config ''Office'' 40 (- 75) 0)])"
  using
    validation_rejects [of "mk_fields None (Some 40) (Some (- 75)) None" first_free_id "[]"]
    validation_rejects [of "mk_fields (Some ''Office'') (Some 91) (Some (- 75)) None"
      first_free_id "[]"]
    validation_rejects [where coll = "[(''office'', mk_config ''Office'' 40 (- 75) 50)]"
      and item_id = "''office''" and d = "mk_fields None None (Some 181) None"]
    validation_rejects [where coll = "[(''office'', mk_config ''Office'' 40 (- 75) 50)]"
      and item_id = "''garage''" and d = "mk_fields None None None (Some 5)"]
    validation_rejects [where coll = "[]" and generate_id = first_free_id
      and d = "mk_fields (Some ''Office'') (Some 40) (Some (- 75)) (Some (- 5))"]
    validation_rejects [where coll = "[(''office'', mk_config ''Office'' 40 (- 75) 50)]"
      and item_id = "''office''" and d = "mk_fields None None None (Some 0)"
      and current = "mk_config ''Office'' 40 (- 75) 50"]
  by (simp add: mk_fields_def mk_config_def bad_latitude_def bad_longitude_def
      async_update_item_def create_malformed_def update_malformed_def first_free_id_def
      merge_fields_def DEFAULT_PASSIVE_def)

text \<open>
  The claim fails on the radius: \<^verbatim>\<open>vol.Coerce(float)\<close> is its only validator. A create
  request with radius \<open>-5\<close> and an update to radius \<open>0\<close> both pass validation, and the
  update needs no name.
\<close>

theorem nonpositive_radius_accepted:
  "process_create_data (mk_fields (Some ''Office'') (Some 40) (Some (- 75)) (Some (- 5)))
     = Inr (mk_config ''Office'' 40 (- 75) (- 5)) \<and>
   update_data (mk_config ''Office'' 40 (- 75) 50) (mk_fields None None None (Some 0))
     = Inr (mk_config ''Office'' 40 (- 75) 0)"
  by (simp add: process_create_data_def CREATE_SCHEMA_def update_data_def UPDATE_SCHEMA_def
      and_then_def Required_def Optional_default_def Optional_def cv_string_def
      cv_latitude_def cv_longitude_def Coerce_float_def cv_boolean_def cv_icon_def
      mk_fields_def mk_config_def merge_fields_def DEFAULT_PASSIVE_def)

section \<open>Reload and setup\<close>

text \<open>
  Claim C4, as the code has it. When the configuration fetch of a reload yields nothing,
  the handler touches nothing: the whole state, and with it the source-origin entities,
  is what it was. The handler then returns normally, with \<^verbatim>\<open>None\<close>, as it does after a
  successful reload.
\<close>

theorem reload_fetch_failure:
  "reload_service_handler co None h = (Inr PyNone, h)"
  by (simp add: reload_service_handler_def)

text \<open>
  The claim's last part fails: the caller of reload gets no failure. The result of the
  handler after a failed fetch is the normal return, the same as after a successful one.
\<close>

theorem reload_failure_not_surfaced:
  "fst (reload_service_handler spec_collaborators None hass0) = Inr PyNone \<and>
   fst (reload_service_handler spec_collaborators (Some []) hass0) = Inr PyNone"
  by (simp add: reload_service_handler_def)

text \<open>
  Claim C10. If an entity with the handle \<^verbatim>\<open>zone.home\<close> exists once both initial loads
  are done, setup returns true at once: the state is the one the loads and registrations
  left, so no home zone is added, no listener for ambient-configuration changes is
  registered (a later change of the ambient location, once notified, updates nothing),
  and the shared data table does not get the storage collection.
\<close>

theorem setup_home_exists:
  assumes "get_entity (setup_collections co h defs) ''zone.home'' = Some z"
  shows "async_setup co h defs = (True, setup_collections co h defs) \<and>
         entities (snd (async_setup co h defs)) = entities (setup_collections co h defs) \<and>
         bus_listeners (snd (async_setup co h defs))
           = bus_listeners (setup_collections co h defs) \<and>
         hass_data (snd (async_setup co h defs)) = hass_data (setup_collections co h defs) \<and>
         (EVENT_CORE_CONFIG_UPDATE \<notin> set (bus_listeners (setup_collections co h defs)) \<longrightarrow>
            fire_core_config_update
              ((snd (async_setup co h defs))
                 \<lparr>location_name := n, config_latitude := la, config_longitude := lo\<rparr>)
            = (snd (async_setup co h defs))
                 \<lparr>location_name := n, config_latitude := la, config_longitude := lo\<rparr>)"
  using assms by (simp add: async_setup_def Let_def fire_core_config_update_def)

theorem setup_home_exists_witness:
  "get_entity (setup_collections spec_collaborators hass0 [mk_config ''home'' 1 2 30])
      ''zone.home''
     = Some (source_entity (mk_config ''home'' 1 2 30)) \<and>
   bus_listeners (snd (async_setup spec_collaborators hass0 [mk_config ''home'' 1 2 30])) = [] \<and>
   hass_data (snd (async_setup spec_collaborators hass0 [mk_config ''home'' 1 2 30])) DOMAIN
     = None \<and>
   map zone_entity_id
     (entities (snd (async_setup spec_collaborators hass0 [mk_config ''home'' 1 2 30])))
     = [Some ''zone.home''] \<and>
   map (\<lambda>z. CONF_LATITUDE (config z))
     (entities (fire_core_config_update
        ((snd (async_setup spec_collaborators hass0 [mk_config ''home'' 1 2 30]))
           \<lparr>location_name := ''Home'', config_latitude := 50, config_longitude := 8\<rparr>)))
     = [1]"
proof -
  have g: "get_entity (setup_collections spec_collaborators hass0 [mk_config ''home'' 1 2 30])
      ''zone.home''
     = Some (source_entity (mk_config ''home'' 1 2 30))"
    by (simp add: get_entity_def setup_collections_def spec_collaborators_def
        spec_yaml_load_def spec_storage_load_def hass0_def source_entity_def
        ENTITY_ID_FORMAT_def mk_config_def Let_def)
  have l: "EVENT_CORE_CONFIG_UPDATE
             \<notin> set (bus_listeners
                      (setup_collections spec_collaborators hass0 [mk_config ''home'' 1 2 30]))"
    by (simp add: setup_collections_def spec_collaborators_def spec_yaml_load_def
        spec_storage_load_def hass0_def Let_def)
  note t = setup_home_exists [OF g, where n = "''Home''" and la = 50 and lo = 8]
  from t have e: "async_setup spec_collaborators hass0 [mk_config ''home'' 1 2 30]
      = (True, setup_collections spec_collaborators hass0 [mk_config ''home'' 1 2 30])"
    by blast
  from t l have f: "fire_core_config_update
        ((snd (async_setup spec_collaborators hass0 [mk_config ''home'' 1 2 30]))
           \<lparr>location_name := ''Home'', config_latitude := 50, config_longitude := 8\<rparr>)
      = (snd (async_setup spec_collaborators hass0 [mk_config ''home'' 1 2 30]))
           \<lparr>location_name := ''Home'', config_latitude := 50, config_longitude := 8\<rparr>"
    by blast
  have "bus_listeners (setup_collections spec_collaborators hass0 [mk_config ''home'' 1 2 30])
          = [] \<and>
        hass_data (setup_collections spec_collaborators hass0 [mk_config ''home'' 1 2 30]) DOMAIN
          = None \<and>
        entities (setup_collections spec_collaborators hass0 [mk_config ''home'' 1 2 30])
          = [source_entity (mk_config ''home'' 1 2 30)]"
    by (simp add: setup_collections_def spec_collaborators_def spec_yaml_load_def
        spec_storage_load_def hass0_def Let_def)
  then show ?thesis
    unfolding f unfolding e
    using g
    by (simp add: source_entity_def ENTITY_ID_FORMAT_def mk_config_def from_yaml_def
        Zone_init_def generate_attrs_def)
qed

text \<open>For contrast, a setup that finds no home zone adds it, listens and fills the table.\<close>

lemma setup_without_home:
  "bus_listeners (snd (async_setup spec_collaborators hass0 [])) = [EVENT_CORE_CONFIG_UPDATE] \<and>
   hass_data (snd (async_setup spec_collaborators hass0 [])) DOMAIN = Some [] \<and>
   map zone_entity_id (entities (snd (async_setup spec_collaborators hass0 [])))
     = [Some ''zone.home''] \<and>
   map (\<lambda>z. CONF_LATITUDE (config z))
     (entities (fire_core_config_update
        ((snd (async_setup spec_collaborators hass0 []))
           \<lparr>location_name := ''Home'', config_latitude := 50, config_longitude := 8\<rparr>)))
     = [50]"
  by (simp add: async_setup_def get_entity_def setup_collections_def spec_collaborators_def
      spec_yaml_load_def spec_storage_load_def spec_add_entities_def hass0_def
      ENTITY_ID_HOME_def HOME_ZONE_def ENTITY_ID_FORMAT_def Let_def
      fire_core_config_update_def core_config_updated_def async_update_config_def
      home_conf_def Zone_init_def generate_attrs_def async_write_ha_state_def)

section \<open>Resolution of the active zone\<close>





text \<open>The zones the loop visits are the zone entries in ascending handle order.\<close>

lemma insort_map_key: "insort (f x) (map f ys) = map f (insort_key f x ys)"
  by (induction ys) simp_all

lemma sort_map_key: "sort (map f xs) = map f (sort_key f xs)"
  by (induction xs) (simp_all add: insort_map_key)

lemma find_by_key:
  "distinct (map f xs) \<Longrightarrow> z \<in> set xs \<Longrightarrow> find (\<lambda>s. f s = f z) xs = Some z"
  by (induction xs) (auto simp: image_iff)

lemma zones_listing:
  assumes "distinct (map entity_id states)"
  shows "map (states_get states) (sort (async_entity_ids states DOMAIN))
           = map Some (sort_key entity_id (zone_entries states))"
proof -
  have ids: "async_entity_ids states DOMAIN = map entity_id (zone_entries states)"
    by (simp add: async_entity_ids_def zone_entries_def filter_map comp_def)
  have "states_get states (entity_id z) = Some z" if "z \<in> set (zone_entries states)" for z
  proof -
    from that have "z \<in> set states" by (simp add: zone_entries_def)
    with assms show ?thesis unfolding states_get_def by (rule find_by_key)
  qed
  then have "map (states_get states \<circ> entity_id) (sort_key entity_id (zone_entries states))
           = map Some (sort_key entity_id (zone_entries states))"
    by (intro map_cong) simp_all
  then show ?thesis by (simp add: ids sort_map_key)
qed

lemma zone_loop_refines:
  assumes "\<forall>z \<in> set zs. candidate z \<longrightarrow> ATTR_RADIUS (attributes z) \<noteq> None"
    and "\<forall>m c. best = Some (m, c) \<longrightarrow> ATTR_RADIUS (attributes c) \<noteq> None"
  shows "zone_loop distance lat lon r (map Some zs) (map_option fst best, map_option snd best)
           = Inr (map_option snd (spec_scan distance lat lon r (filter candidate zs) best))"
  using assms
proof (induction zs arbitrary: best)
  case Nil
  then show ?case by simp
next
  case (Cons z zs)
  show ?case
  proof (cases "candidate z")
    case False
    then have "zone_step distance lat lon r (Some z) (map_option fst best, map_option snd best)
                 = Inr (map_option fst best, map_option snd best)"
      by (auto simp: zone_step_def candidate_def)
    with False Cons show ?thesis by simp
  next
    case True
    then obtain zr where zr: "ATTR_RADIUS (attributes z) = Some zr"
      using Cons.prems(1) by auto
    show ?thesis
    proof (cases "distance lat lon (ATTR_LATITUDE (attributes z)) (ATTR_LONGITUDE (attributes z))")
      case None
      with True have "zone_step distance lat lon r (Some z) (map_option fst best, map_option snd best)
                 = Inr (map_option fst best, map_option snd best)"
        by (auto simp: zone_step_def candidate_def)
      with True None Cons show ?thesis by simp
    next
      case (Some zd)
      define best' where "best' = (if spec_replaces zd r z best then Some (zd, z) else best)"
      have step: "zone_step distance lat lon r (Some z) (map_option fst best, map_option snd best)
                 = Inr (map_option fst best', map_option snd best')"
        using True Some zr Cons.prems(2)
        by (cases best)
          (auto simp: zone_step_def candidate_def closer_zone_def smaller_zone_def
            spec_replaces_def spec_within_def best'_def Let_def split: if_splits)
      have inv: "\<forall>m c. best' = Some (m, c) \<longrightarrow> ATTR_RADIUS (attributes c) \<noteq> None"
        using zr Cons.prems(2) by (auto simp: best'_def)
      have "zone_loop distance lat lon r (map Some zs) (map_option fst best', map_option snd best')
           = Inr (map_option snd (spec_scan distance lat lon r (filter candidate zs) best'))"
        using Cons.IH [OF _ inv] Cons.prems(1) by simp
      with step True Some show ?thesis by (simp add: best'_def)
    qed
  qed
qed

text \<open>Without the radius of a candidate that has a distance, the comparison raises.\<close>

lemma zone_step_no_radius:
  assumes "candidate z"
    and "distance lat lon (ATTR_LATITUDE (attributes z)) (ATTR_LONGITUDE (attributes z)) = Some d"
    and "ATTR_RADIUS (attributes z) = None"
  shows "zone_step distance lat lon r (Some z) acc = Inl TypeError"
  using assms by (simp add: zone_step_def candidate_def)

lemma spec_candidates_alt:
  "spec_candidates states = filter candidate (sort_key entity_id (zone_entries states))"
  by (simp add: spec_candidates_def)

lemma active_zone_is_spec:
  assumes "distinct (map entity_id states)"
    and "\<forall>z \<in> set (spec_candidates states). ATTR_RADIUS (attributes z) \<noteq> None"
  shows "async_active_zone distance states lat lon r
           = Inr (resolveActiveZone distance states lat lon r)"
proof -
  have "\<forall>z \<in> set (sort_key entity_id (zone_entries states)).
          candidate z \<longrightarrow> ATTR_RADIUS (attributes z) \<noteq> None"
    using assms(2) by (simp add: spec_candidates_alt)
  from zone_loop_refines [OF this, of None distance lat lon r]
  show ?thesis
    by (simp add: async_active_zone_def resolveActiveZone_def zones_listing [OF assms(1)]
        spec_candidates_alt)
qed






lemma spec_scan_Cons:
  "spec_scan distance lat lon extra (z # zs) best =
     spec_scan distance lat lon extra zs (scan_step distance lat lon extra z best)"
  by (simp add: scan_step_def split: option.splits)

lemma better_trans: "better a b c d \<Longrightarrow> better c d e f \<Longrightarrow> better a b e f"
  by (auto simp: better_def)

lemma better_irrefl: "\<not> better a b a b"
  by (simp add: better_def)

lemma better_le_trans: "better a b c d \<Longrightarrow> \<not> better e f c d \<Longrightarrow> better a b e f"
  by (auto simp: better_def)

text \<open>One step either keeps the running best or installs a qualifying zone that beats it.\<close>

lemma scan_step_cases:
  "scan_step distance lat lon extra z best = best \<or>
   (\<exists>d zr. scan_step distance lat lon extra z best = Some (d, z) \<and>
      qualifies distance lat lon extra z d zr \<and>
      (\<forall>m c rc. best = Some (m, c) \<longrightarrow> ATTR_RADIUS (attributes c) = Some rc
          \<longrightarrow> better d zr m rc))"
  by (auto simp: scan_step_def spec_replaces_def spec_within_def qualifies_def better_def
      split: option.splits)

text \<open>A qualifying zone that does not replace the running best does not beat it.\<close>

lemma scan_step_kept:
  assumes "qualifies distance lat lon extra z d zr"
    and "scan_step distance lat lon extra z best \<noteq> Some (d, z)"
  shows "\<exists>m c. best = Some (m, c) \<and>
           (\<forall>rc. ATTR_RADIUS (attributes c) = Some rc \<longrightarrow> \<not> better d zr m rc)"
  using assms
  by (auto simp: scan_step_def spec_replaces_def spec_within_def qualifies_def better_def
      split: option.splits if_splits)

lemma scan_step_ok:
  "best_ok distance lat lon extra best \<Longrightarrow>
   best_ok distance lat lon extra (scan_step distance lat lon extra z best)"
  using scan_step_cases [of distance lat lon extra z best]
  by (auto simp: best_ok_def)

lemma scan_origin:
  "spec_scan distance lat lon extra zs best = Some (m, c) \<Longrightarrow>
   best = Some (m, c) \<or> (c \<in> set zs \<and> (\<exists>rc. qualifies distance lat lon extra c m rc))"
proof (induction zs arbitrary: best)
  case Nil
  then show ?case by simp
next
  case (Cons z zs)
  from Cons.prems have
    "spec_scan distance lat lon extra zs (scan_step distance lat lon extra z best) = Some (m, c)"
    by (simp only: spec_scan_Cons)
  from Cons.IH [OF this] scan_step_cases [of distance lat lon extra z best]
  show ?case by auto
qed

lemma scan_keeps_some:
  "best \<noteq> None \<Longrightarrow> spec_scan distance lat lon extra zs best \<noteq> None"
proof (induction zs arbitrary: best)
  case Nil
  then show ?case by simp
next
  case (Cons z zs)
  have "scan_step distance lat lon extra z best \<noteq> None"
    using Cons.prems scan_step_cases [of distance lat lon extra z best] by auto
  then show ?case unfolding spec_scan_Cons by (rule Cons.IH)
qed

lemma scan_finds:
  "z \<in> set zs \<Longrightarrow> qualifies distance lat lon extra z d zr \<Longrightarrow>
   spec_scan distance lat lon extra zs best \<noteq> None"
proof (induction zs arbitrary: best)
  case Nil
  then show ?case by simp
next
  case (Cons x zs)
  show ?case
  proof (cases "x = z")
    case True
    have "scan_step distance lat lon extra z best \<noteq> None"
      using scan_step_kept [OF Cons.prems(2), of best]
        scan_step_cases [of distance lat lon extra z best]
      by (cases "scan_step distance lat lon extra z best = Some (d, z)") auto
    then show ?thesis
      unfolding spec_scan_Cons True by (rule scan_keeps_some)
  next
    case False
    with Cons.prems have "z \<in> set zs" by simp
    then show ?thesis
      unfolding spec_scan_Cons using Cons.prems(2) by (rule Cons.IH)
  qed
qed

text \<open>The running best only ever improves.\<close>

lemma scan_improves:
  assumes "spec_scan distance lat lon extra zs (Some (m0, c0)) = Some (m, c)"
    and "ATTR_RADIUS (attributes c0) = Some r0"
    and "ATTR_RADIUS (attributes c) = Some rc"
  shows "(m, c) = (m0, c0) \<or> better m rc m0 r0"
  using assms
proof (induction zs arbitrary: m0 c0 r0)
  case Nil
  then show ?case by simp
next
  case (Cons z zs)
  from Cons.prems(1) have sc:
    "spec_scan distance lat lon extra zs (scan_step distance lat lon extra z (Some (m0, c0)))
       = Some (m, c)"
    by (simp only: spec_scan_Cons)
  from scan_step_cases [of distance lat lon extra z "Some (m0, c0)"]
  show ?case
  proof
    assume "scan_step distance lat lon extra z (Some (m0, c0)) = Some (m0, c0)"
    with sc Cons.IH [OF _ Cons.prems(2,3)] show ?thesis by simp
  next
    assume "\<exists>d zr. scan_step distance lat lon extra z (Some (m0, c0)) = Some (d, z) \<and>
      qualifies distance lat lon extra z d zr \<and>
      (\<forall>m c rc. Some (m0, c0) = Some (m, c) \<longrightarrow> ATTR_RADIUS (attributes c) = Some rc
          \<longrightarrow> better d zr m rc)"
    then obtain d zr where
      st: "scan_step distance lat lon extra z (Some (m0, c0)) = Some (d, z)" and
      q: "qualifies distance lat lon extra z d zr" and
      b: "better d zr m0 r0"
      using Cons.prems(2) by auto
    from q have rz: "ATTR_RADIUS (attributes z) = Some zr" by (simp add: qualifies_def)
    from sc st have "spec_scan distance lat lon extra zs (Some (d, z)) = Some (m, c)" by simp
    from Cons.IH [OF this rz Cons.prems(3)]
    have "(m, c) = (d, z) \<or> better m rc d zr" .
    then show ?thesis
    proof
      assume "(m, c) = (d, z)"
      with rz Cons.prems(3) b show ?thesis by auto
    next
      assume "better m rc d zr"
      with b show ?thesis by (blast intro: better_trans)
    qed
  qed
qed


lemma better_asym: "better a b c d \<Longrightarrow> \<not> better c d a b"
  by (auto simp: better_def)

lemma qualifies_unique:
  "qualifies distance lat lon extra z d zr \<Longrightarrow> qualifies distance lat lon extra z d' zr' \<Longrightarrow>
   d' = d \<and> zr' = zr"
  by (simp add: qualifies_def)

lemma scan_ok:
  "best_ok distance lat lon extra best \<Longrightarrow>
   best_ok distance lat lon extra (spec_scan distance lat lon extra zs best)"
proof (induction zs arbitrary: best)
  case Nil
  then show ?case by simp
next
  case (Cons z zs)
  from Cons.prems have "best_ok distance lat lon extra (scan_step distance lat lon extra z best)"
    by (rule scan_step_ok)
  then show ?case unfolding spec_scan_Cons by (rule Cons.IH)
qed

lemma scan_append:
  "spec_scan distance lat lon extra (xs @ ys) best =
     spec_scan distance lat lon extra ys (spec_scan distance lat lon extra xs best)"
proof (induction xs arbitrary: best)
  case Nil
  then show ?case by simp
next
  case (Cons x xs)
  show ?case unfolding append_Cons spec_scan_Cons by (rule Cons.IH)
qed

text \<open>No qualifying zone of the list beats the result.\<close>

lemma scan_minimal:
  assumes "z \<in> set zs"
    and "qualifies distance lat lon extra z d zr"
    and "best_ok distance lat lon extra best"
    and "spec_scan distance lat lon extra zs best = Some (m, c)"
    and "ATTR_RADIUS (attributes c) = Some rc"
  shows "\<not> better d zr m rc"
  using assms(1,3,4)
proof (induction zs arbitrary: best)
  case Nil
  then show ?case by simp
next
  case (Cons x zs)
  define b1 where "b1 = scan_step distance lat lon extra x best"
  have ok1: "best_ok distance lat lon extra b1"
    unfolding b1_def using Cons.prems(2) by (rule scan_step_ok)
  have sc: "spec_scan distance lat lon extra zs b1 = Some (m, c)"
    using Cons.prems(3) unfolding spec_scan_Cons b1_def .
  show ?case
  proof (cases "z \<in> set zs")
    case True
    then show ?thesis using ok1 sc by (rule Cons.IH)
  next
    case False
    with Cons.prems(1) have xz: "x = z" by simp
    from assms(2) have rz: "ATTR_RADIUS (attributes z) = Some zr" by (simp add: qualifies_def)
    show ?thesis
    proof (cases "b1 = Some (d, z)")
      case True
      with sc have "spec_scan distance lat lon extra zs (Some (d, z)) = Some (m, c)" by simp
      from scan_improves [OF this rz assms(5)] rz assms(5) show ?thesis
        by (auto simp: better_irrefl dest: better_asym)
    next
      case False
      then have ne: "scan_step distance lat lon extra z best \<noteq> Some (d, z)"
        by (simp add: b1_def xz)
      from scan_step_kept [OF assms(2) ne] obtain m0 c0 where
        b: "best = Some (m0, c0)" and
        nb: "\<forall>r0. ATTR_RADIUS (attributes c0) = Some r0 \<longrightarrow> \<not> better d zr m0 r0"
        by blast
      from Cons.prems(2) b obtain r0 where q0: "qualifies distance lat lon extra c0 m0 r0"
        by (auto simp: best_ok_def)
      then have r0: "ATTR_RADIUS (attributes c0) = Some r0" by (simp add: qualifies_def)
      have "b1 = best"
        using scan_step_cases [of distance lat lon extra z best] ne
          qualifies_unique [OF assms(2)]
        by (auto simp: b1_def xz)
      with sc b have "spec_scan distance lat lon extra zs (Some (m0, c0)) = Some (m, c)" by simp
      from scan_improves [OF this r0 assms(5)]
      have "(m, c) = (m0, c0) \<or> better m rc m0 r0" .
      then show ?thesis
      proof
        assume "(m, c) = (m0, c0)"
        with r0 assms(5) nb show ?thesis by auto
      next
        assume bm: "better m rc m0 r0"
        show ?thesis
        proof
          assume "better d zr m rc"
          then have "better d zr m0 r0" using bm by (rule better_trans)
          with nb r0 show False by blast
        qed
      qed
    qed
  qed
qed

text \<open>A result found after a qualifying zone strictly beats that zone.\<close>

lemma scan_later_beats:
  assumes "a \<in> set xs"
    and "qualifies distance lat lon extra a d zr"
    and "spec_scan distance lat lon extra (xs @ ys) None = Some (m, c)"
    and "c \<notin> set xs"
    and "ATTR_RADIUS (attributes c) = Some rc"
  shows "better m rc d zr"
proof -
  have ok: "best_ok distance lat lon extra None" by (simp add: best_ok_def)
  from scan_finds [OF assms(1,2), of None] obtain m1 c1 where
    b1: "spec_scan distance lat lon extra xs None = Some (m1, c1)" by auto
  from scan_origin [OF b1] obtain r1 where
    c1: "c1 \<in> set xs" and q1: "qualifies distance lat lon extra c1 m1 r1" by auto
  from q1 have r1: "ATTR_RADIUS (attributes c1) = Some r1" by (simp add: qualifies_def)
  from scan_minimal [OF assms(1,2) ok b1 r1] have nb: "\<not> better d zr m1 r1" .
  from assms(3) b1 have "spec_scan distance lat lon extra ys (Some (m1, c1)) = Some (m, c)"
    by (simp add: scan_append)
  from scan_improves [OF this r1 assms(5)] c1 assms(4) have "better m rc m1 r1" by auto
  then show ?thesis using nb by (rule better_le_trans)
qed

lemma scan_loser:
  assumes "sorted (map entity_id cs)"
    and "A \<in> set cs" and "B \<in> set cs"
    and "qualifies distance lat lon extra A d ra"
    and "qualifies distance lat lon extra B d rb"
    and "ra < rb \<or> (ra = rb \<and> entity_id A < entity_id B)"
  shows "spec_scan distance lat lon extra cs None \<noteq> Some (m, B)"
proof
  assume res: "spec_scan distance lat lon extra cs None = Some (m, B)"
  have ok: "best_ok distance lat lon extra None" by (simp add: best_ok_def)
  from scan_origin [OF res] obtain rc where "qualifies distance lat lon extra B m rc" by auto
  with qualifies_unique [OF assms(5)] have m: "m = d" by blast
  from assms(5) have rB: "ATTR_RADIUS (attributes B) = Some rb" by (simp add: qualifies_def)
  from assms(6) show False
  proof
    assume "ra < rb"
    then have "better d ra d rb" by (simp add: better_def)
    with scan_minimal [OF assms(2,4) ok res rB] m show False by simp
  next
    assume tie: "ra = rb \<and> entity_id A < entity_id B"
    from assms(2) obtain xs ys where cs: "cs = xs @ A # ys" by (auto simp: in_set_conv_decomp)
    have "\<forall>x \<in> set xs. entity_id x \<le> entity_id A"
      using assms(1) by (auto simp: cs sorted_append)
    with tie have "B \<notin> set (xs @ [A])" by auto
    moreover have "spec_scan distance lat lon extra ((xs @ [A]) @ ys) None = Some (m, B)"
      using res by (simp add: cs)
    moreover have "A \<in> set (xs @ [A])" by simp
    ultimately have "better m rb d ra"
      using assms(4) rB by (metis scan_later_beats)
    with tie m show False by (simp add: better_def)
  qed
qed

lemma scan_winner:
  assumes "sorted (map entity_id cs)"
    and "A \<in> set cs"
    and "qualifies distance lat lon extra A d ra"
    and "\<forall>C \<in> set cs. \<forall>dc rc. C \<noteq> A \<and> qualifies distance lat lon extra C dc rc \<longrightarrow>
           better d ra dc rc \<or> (dc = d \<and> rc = ra \<and> entity_id A < entity_id C)"
  shows "spec_scan distance lat lon extra cs None = Some (d, A)"
proof -
  from scan_finds [OF assms(2,3), of None] obtain m c where
    res: "spec_scan distance lat lon extra cs None = Some (m, c)" by auto
  from scan_origin [OF res] obtain rc where
    c: "c \<in> set cs" and qc: "qualifies distance lat lon extra c m rc" by auto
  have "c = A"
  proof (rule ccontr)
    assume ne: "c \<noteq> A"
    with assms(4) c qc have
      "better d ra m rc \<or> (m = d \<and> rc = ra \<and> entity_id A < entity_id c)" by blast
    then show False
    proof
      assume b: "better d ra m rc"
      have ok: "best_ok distance lat lon extra None" by (simp add: best_ok_def)
      from qc have "ATTR_RADIUS (attributes c) = Some rc" by (simp add: qualifies_def)
      from scan_minimal [OF assms(2,3) ok res this] b show False by simp
    next
      assume tie: "m = d \<and> rc = ra \<and> entity_id A < entity_id c"
      then have "qualifies distance lat lon extra c d ra" using qc by simp
      from scan_loser [OF assms(1,2) c assms(3) this, of m] tie res show False by simp
    qed
  qed
  with qc qualifies_unique [OF assms(3)] res show ?thesis by auto
qed

lemma sorted_zone_entries_unique:
  assumes "distinct (map entity_id s1)" and "distinct (map entity_id s2)"
    and "set s1 = set s2"
  shows "sort_key entity_id (zone_entries s1) = sort_key entity_id (zone_entries s2)"
proof -
  let ?xs = "sort_key entity_id (zone_entries s1)"
  let ?ys = "sort_key entity_id (zone_entries s2)"
  have d1: "distinct (map entity_id ?xs)"
    using assms(1) by (simp add: sort_map_key [symmetric] zone_entries_def distinct_map_filter)
  have d2: "distinct (map entity_id ?ys)"
    using assms(2) by (simp add: sort_map_key [symmetric] zone_entries_def distinct_map_filter)
  have st: "set ?xs = set ?ys" using assms(3) by (simp add: zone_entries_def)
  then have "set (map entity_id ?xs) = set (map entity_id ?ys)" by simp
  with d1 d2 have eq: "map entity_id ?xs = map entity_id ?ys"
    by (intro sorted_distinct_set_unique) simp_all
  have "inj_on entity_id (set s1)" using assms(1) by (simp add: distinct_map)
  then have "inj_on entity_id (set ?xs \<union> set ?ys)"
    using st by (auto simp: zone_entries_def intro: inj_on_subset)
  with eq show ?thesis by (simp add: inj_on_map_eq_map)
qed

lemma active_zone_insertion_order:
  assumes "distinct (map entity_id s1)" and "distinct (map entity_id s2)"
    and "set s1 = set s2"
  shows "async_active_zone distance s1 lat lon r = async_active_zone distance s2 lat lon r"
  by (simp add: async_active_zone_def zones_listing [OF assms(1)] zones_listing [OF assms(2)]
      sorted_zone_entries_unique [OF assms])


lemma set_spec_candidates:
  "set (spec_candidates states) =
     {z \<in> set states. fst (split_entity_id (entity_id z)) = DOMAIN \<and>
        \<not> ATTR_PASSIVE (attributes z) \<and> state z \<noteq> STATE_UNAVAILABLE}"
  by (auto simp: spec_candidates_def zone_entries_def candidate_def)

lemma sorted_spec_candidates: "sorted (map entity_id (spec_candidates states))"
  by (simp add: spec_candidates_def sorted_filter)

text \<open>
  On a namespace whose handles are distinct and whose candidates all have a radius,
  \<^const>\<open>async_active_zone\<close> returns without raising, and its result is that of the
  operation as specified: the candidates are exactly the zone entries that are not
  passive and not unavailable, in ascending order of their handles; a candidate without a
  distance is skipped; the running \<open>closest\<close> is replaced exactly when
  \<^const>\<open>spec_replaces\<close> holds; the last \<open>closest\<close>, possibly none, is the result.
\<close>

lemma active_zone_agrees_with_spec:
  assumes "distinct (map entity_id states)"
    and "\<forall>z \<in> set (spec_candidates states). ATTR_RADIUS (attributes z) \<noteq> None"
  shows "async_active_zone distance states lat lon r
           = Inr (resolveActiveZone distance states lat lon r) \<and>
         set (spec_candidates states) =
           {z \<in> set states. fst (split_entity_id (entity_id z)) = DOMAIN \<and>
              \<not> ATTR_PASSIVE (attributes z) \<and> state z \<noteq> STATE_UNAVAILABLE} \<and>
         sorted (map entity_id (spec_candidates states))"
  using active_zone_is_spec [OF assms] set_spec_candidates sorted_spec_candidates
  by simp

text \<open>The definitions a concrete run of the scan unfolds.\<close>

lemmas run_defs =
  mk_state_def planar_distance_def STATE_UNAVAILABLE_def DOMAIN_def
  spec_candidates_def zone_entries_def candidate_def split_entity_id_def
  resolveActiveZone_def spec_replaces_def spec_within_def qualifies_def

lemma mixed_states_run:
  "distinct (map entity_id mixed_states) \<and>
   async_active_zone planar_distance mixed_states 0 50 0
     = Inr (resolveActiveZone planar_distance mixed_states 0 50 0) \<and>
   resolveActiveZone planar_distance mixed_states 0 50 0
     = Some (mk_state ''zone.d'' ''0'' 0 20 (Some 100) False) \<and>
   map entity_id (spec_candidates mixed_states) = [''zone.a'', ''zone.d'', ''zone.e'']"
proof -
  have d: "distinct (map entity_id mixed_states)"
    by (simp add: mixed_states_def mk_state_def)
  have c: "spec_candidates mixed_states =
     [mk_state ''zone.a'' ''0'' 95 50 (Some 100) False,
      mk_state ''zone.d'' ''0'' 0 20 (Some 100) False,
      mk_state ''zone.e'' ''0'' 0 80 (Some 10) False]"
    by (simp add: mixed_states_def run_defs)
  have r: "\<forall>z \<in> set (spec_candidates mixed_states). ATTR_RADIUS (attributes z) \<noteq> None"
    unfolding c by (simp add: mk_state_def)
  have v: "resolveActiveZone planar_distance mixed_states 0 50 0
     = Some (mk_state ''zone.d'' ''0'' 0 20 (Some 100) False)"
    unfolding resolveActiveZone_def c
    by (simp add: mk_state_def planar_distance_def spec_replaces_def spec_within_def)
  from active_zone_agrees_with_spec [OF d r, of planar_distance 0 50 0] d v c
  show ?thesis by (simp add: mk_state_def)
qed

text \<open>
  For every namespace with distinct handles: the loop raises \<^verbatim>\<open>TypeError\<close> exactly when
  some candidate has a distance and no radius, and returns the specified result otherwise.
\<close>

lemma zone_loop_exact:
  assumes "\<forall>m c. best = Some (m, c) \<longrightarrow> ATTR_RADIUS (attributes c) \<noteq> None"
  shows "zone_loop distance lat lon r (map Some zs) (map_option fst best, map_option snd best)
           = (if \<exists>z \<in> set (filter candidate zs). lacks_radius distance lat lon z
              then Inl TypeError
              else Inr (map_option snd
                     (spec_scan distance lat lon r (filter candidate zs) best)))"
  using assms
proof (induction zs arbitrary: best)
  case Nil
  then show ?case by simp
next
  case (Cons z zs)
  show ?case
  proof (cases "candidate z")
    case False
    then have "zone_step distance lat lon r (Some z) (map_option fst best, map_option snd best)
                 = Inr (map_option fst best, map_option snd best)"
      by (auto simp: zone_step_def candidate_def)
    with False Cons show ?thesis by auto
  next
    case True
    show ?thesis
    proof (cases "distance lat lon (ATTR_LATITUDE (attributes z)) (ATTR_LONGITUDE (attributes z))")
      case None
      with True have "zone_step distance lat lon r (Some z) (map_option fst best, map_option snd best)
                 = Inr (map_option fst best, map_option snd best)"
        by (auto simp: zone_step_def candidate_def)
      with True None Cons show ?thesis by (auto simp: lacks_radius_def)
    next
      case (Some zd)
      note zd = this
      show ?thesis
      proof (cases "ATTR_RADIUS (attributes z)")
        case None
        have "zone_step distance lat lon r (Some z) (map_option fst best, map_option snd best)
                = Inl TypeError"
          using True zd None by (simp add: zone_step_def candidate_def)
        moreover have "lacks_radius distance lat lon z"
          using zd None by (simp add: lacks_radius_def)
        ultimately show ?thesis using True by auto
      next
        case (Some zr)
        note zr = this
        define best' where "best' = (if spec_replaces zd r z best then Some (zd, z) else best)"
        have step: "zone_step distance lat lon r (Some z) (map_option fst best, map_option snd best)
                 = Inr (map_option fst best', map_option snd best')"
          using True zd zr Cons.prems
          by (cases best)
            (auto simp: zone_step_def candidate_def closer_zone_def smaller_zone_def
              spec_replaces_def spec_within_def best'_def Let_def split: if_splits)
        have inv: "\<forall>m c. best' = Some (m, c) \<longrightarrow> ATTR_RADIUS (attributes c) \<noteq> None"
          using zr Cons.prems by (auto simp: best'_def)
        have nl: "\<not> lacks_radius distance lat lon z"
          using zr by (simp add: lacks_radius_def)
        from Cons.IH [OF inv] step True nl zd
        show ?thesis by (auto simp: best'_def)
      qed
    qed
  qed
qed

lemma active_zone_exact:
  assumes "distinct (map entity_id states)"
  shows "async_active_zone distance states lat lon r
           = (if \<exists>z \<in> set (spec_candidates states). lacks_radius distance lat lon z
              then Inl TypeError
              else Inr (resolveActiveZone distance states lat lon r))"
  using zone_loop_exact [of None distance lat lon r "sort_key entity_id (zone_entries states)"]
  by (auto simp: async_active_zone_def resolveActiveZone_def zones_listing [OF assms]
      spec_candidates_alt)

text \<open>
  Claim C1. The claim gives a result for every namespace state: each candidate is tested
  by \<open>zone_dist - extraRadius < radius\<close> and the last \<open>closest\<close>, possibly none, is
  returned. On a candidate that has a distance and no radius the loop of
  \<^const>\<open>async_active_zone\<close> compares with \<^verbatim>\<open>None\<close> and raises \<^verbatim>\<open>TypeError\<close>: nothing is
  returned, where the operation as specified returns none and \<^const>\<open>in_zone\<close>, which
  tests the radius for \<^verbatim>\<open>None\<close>, answers false.
\<close>

theorem active_zone_raises_without_radius:
  "async_active_zone planar_distance no_radius_states 0 50 0 = Inl TypeError \<and>
   resolveActiveZone planar_distance no_radius_states 0 50 0 = None \<and>
   spec_candidates no_radius_states = no_radius_states \<and>
   in_zone planar_distance (mk_state ''zone.a'' ''0'' 0 0 None False) 0 50 0 = False"
  by (simp add: no_radius_states_def run_defs async_active_zone_def async_entity_ids_def
      states_get_def zone_step_def in_zone_def)

text \<open>
  Claim C3. Let \<open>A\<close> and \<open>B\<close> be candidates of the namespace, both within and at one
  distance from the point, with \<open>A\<close> the smaller, or of the same radius and with the lower
  handle. Then \<open>B\<close> is never the result, whichever of the two handles comes first; \<open>A\<close> is
  the result when every third candidate that qualifies loses to \<open>A\<close> in the same way (in
  particular when no third candidate qualifies); and the result depends only on the
  entries of the namespace, not on the order in which they were inserted.
\<close>

theorem tie_breaking:
  assumes "distinct (map entity_id states)"
    and "\<forall>z \<in> set (spec_candidates states). ATTR_RADIUS (attributes z) \<noteq> None"
    and "A \<in> set (spec_candidates states)" and "B \<in> set (spec_candidates states)"
    and "qualifies distance lat lon extra A d ra"
    and "qualifies distance lat lon extra B d rb"
    and "ra < rb \<or> (ra = rb \<and> entity_id A < entity_id B)"
  shows "async_active_zone distance states lat lon extra \<noteq> Inr (Some B) \<and>
         ((\<forall>C \<in> set (spec_candidates states). \<forall>dc rc.
             C \<noteq> A \<and> C \<noteq> B \<and> qualifies distance lat lon extra C dc rc \<longrightarrow>
             better d ra dc rc \<or> (dc = d \<and> rc = ra \<and> entity_id A < entity_id C))
            \<longrightarrow> async_active_zone distance states lat lon extra = Inr (Some A)) \<and>
         (\<forall>states'. distinct (map entity_id states') \<and> set states' = set states
            \<longrightarrow> async_active_zone distance states' lat lon extra
                  = async_active_zone distance states lat lon extra)"
proof (intro conjI allI impI)
  note eq = active_zone_is_spec [OF assms(1,2), of distance lat lon extra]
  note srt = sorted_spec_candidates [of states]
  show "async_active_zone distance states lat lon extra \<noteq> Inr (Some B)"
    using scan_loser [OF srt assms(3,4,5,6,7)]
    by (auto simp: eq resolveActiveZone_def)
  show "async_active_zone distance states lat lon extra = Inr (Some A)"
    if only: "\<forall>C \<in> set (spec_candidates states). \<forall>dc rc.
             C \<noteq> A \<and> C \<noteq> B \<and> qualifies distance lat lon extra C dc rc \<longrightarrow>
             better d ra dc rc \<or> (dc = d \<and> rc = ra \<and> entity_id A < entity_id C)"
  proof -
    have "\<forall>C \<in> set (spec_candidates states). \<forall>dc rc.
            C \<noteq> A \<and> qualifies distance lat lon extra C dc rc \<longrightarrow>
            better d ra dc rc \<or> (dc = d \<and> rc = ra \<and> entity_id A < entity_id C)"
    proof (intro ballI allI impI)
      fix C dc rc
      assume C: "C \<in> set (spec_candidates states)"
        and q: "C \<noteq> A \<and> qualifies distance lat lon extra C dc rc"
      show "better d ra dc rc \<or> (dc = d \<and> rc = ra \<and> entity_id A < entity_id C)"
      proof (cases "C = B")
        case True
        with q qualifies_unique [OF assms(6)] have "dc = d \<and> rc = rb" by blast
        with assms(7) True show ?thesis by (auto simp: better_def)
      next
        case False
        with only C q show ?thesis by blast
      qed
    qed
    from scan_winner [OF srt assms(3,5) this] show ?thesis
      by (simp add: eq resolveActiveZone_def)
  qed
  show "async_active_zone distance states' lat lon extra
          = async_active_zone distance states lat lon extra"
    if "distinct (map entity_id states') \<and> set states' = set states" for states'
    using that assms(1) by (intro active_zone_insertion_order) simp_all
qed

theorem tie_breaking_witness:
  "async_active_zone planar_distance nested_states 0 50 0
     = Inr (Some (mk_state ''zone.b'' ''0'' 0 0 (Some 100) False)) \<and>
   async_active_zone planar_distance twin_states 0 50 0
     = Inr (Some (mk_state ''zone.a'' ''0'' 0 0 (Some 100) False)) \<and>
   async_active_zone planar_distance (rev twin_states) 0 50 0
     = Inr (Some (mk_state ''zone.a'' ''0'' 0 0 (Some 100) False))"
proof -
  let ?a200 = "mk_state ''zone.a'' ''0'' 0 0 (Some 200) False"
  let ?a100 = "mk_state ''zone.a'' ''0'' 0 0 (Some 100) False"
  let ?b100 = "mk_state ''zone.b'' ''0'' 0 0 (Some 100) False"
  have cn: "spec_candidates nested_states = [?a200, ?b100]"
    by (simp add: nested_states_def run_defs)
  have ct: "spec_candidates twin_states = [?a100, ?b100]"
    by (simp add: twin_states_def run_defs)
  have dn: "distinct (map entity_id nested_states)"
    and dt: "distinct (map entity_id twin_states)"
    and dr: "distinct (map entity_id (rev twin_states))"
    by (simp_all add: nested_states_def twin_states_def mk_state_def)
  have rn: "\<forall>z \<in> set (spec_candidates nested_states). ATTR_RADIUS (attributes z) \<noteq> None"
    and rt: "\<forall>z \<in> set (spec_candidates twin_states). ATTR_RADIUS (attributes z) \<noteq> None"
    unfolding cn ct by (simp_all add: mk_state_def)
  have qa200: "qualifies planar_distance 0 50 0 ?a200 50 200"
    and qa100: "qualifies planar_distance 0 50 0 ?a100 50 100"
    and qb100: "qualifies planar_distance 0 50 0 ?b100 50 100"
    by (simp_all add: qualifies_def mk_state_def planar_distance_def)
  have n: "async_active_zone planar_distance nested_states 0 50 0 = Inr (Some ?b100)"
  proof -
    have A: "?b100 \<in> set (spec_candidates nested_states)"
      and B: "?a200 \<in> set (spec_candidates nested_states)"
      unfolding cn by simp_all
    have o: "(100::real) < 200 \<or> ((100::real) = 200 \<and> entity_id ?b100 < entity_id ?a200)"
      by simp
    from tie_breaking [OF dn rn A B qb100 qa200 o] show ?thesis
      unfolding cn by simp
  qed
  have A: "?a100 \<in> set (spec_candidates twin_states)"
    and B: "?b100 \<in> set (spec_candidates twin_states)"
    unfolding ct by simp_all
  have o: "(100::real) < 100 \<or> ((100::real) = 100 \<and> entity_id ?a100 < entity_id ?b100)"
    by (simp add: mk_state_def)
  note t = tie_breaking [OF dt rt A B qa100 qb100 o]
  from t have t1: "async_active_zone planar_distance twin_states 0 50 0 = Inr (Some ?a100)"
    unfolding ct by simp
  from t dr have "async_active_zone planar_distance (rev twin_states) 0 50 0
                    = async_active_zone planar_distance twin_states 0 50 0"
    by simp
  with n t1 show ?thesis by simp
qed

end
